theory Spec2Isabelle
  imports Complex_Main "HOL-Library.AList"
begin

section \<open>JavaScript numbers and the operators the scoring code uses\<close>

text \<open>
  The scoring code is embedded twice. In this first embedding a JavaScript number is an
  exact rational or \<open>NaN\<close>: the literals \<open>0.4\<close> and \<open>0.2\<close> are the rationals
  \<open>2/5\<close> and \<open>1/5\<close>, and nothing rounds or overflows. It carries the properties for
  which the rounding of IEEE doubles is immaterial: thresholds, defaults, what an absent
  property does, what is written. \<open>NaN\<close> is kept because the code produces it whenever
  a property it reads is absent (\<open>0 + undefined\<close>). The second embedding, further
  down, rounds every result to binary64 and carries the properties that an overflow
  decides.
\<close>

datatype jsnum = NaN | Num rat

text \<open>A property of a stored document: \<open>None\<close> when the document has no such property
  (JavaScript reads \<open>undefined\<close>).\<close>

fun to_number :: "jsnum option \<Rightarrow> jsnum" where
  "to_number None = NaN"
| "to_number (Some v) = v"

fun js_add :: "jsnum \<Rightarrow> jsnum \<Rightarrow> jsnum" where
  "js_add (Num a) (Num b) = Num (a + b)"
| "js_add _ _ = NaN"

fun js_sub :: "jsnum \<Rightarrow> jsnum \<Rightarrow> jsnum" where
  "js_sub (Num a) (Num b) = Num (a - b)"
| "js_sub _ _ = NaN"

fun js_mul :: "jsnum \<Rightarrow> jsnum \<Rightarrow> jsnum" where
  "js_mul (Num a) (Num b) = Num (a * b)"
| "js_mul _ _ = NaN"

text \<open>Division. Every divisor in the code is a non-zero array length or the literal 5;
  a zero divisor (an infinity or \<open>NaN\<close> in JavaScript) is given \<open>NaN\<close> and never reached.\<close>

fun js_div :: "jsnum \<Rightarrow> jsnum \<Rightarrow> jsnum" where
  "js_div (Num a) (Num b) = (if b = 0 then NaN else Num (a / b))"
| "js_div _ _ = NaN"

text \<open>Comparisons are false as soon as one side is \<open>NaN\<close>.\<close>

fun js_lt :: "jsnum \<Rightarrow> jsnum \<Rightarrow> bool" where
  "js_lt (Num a) (Num b) = (a < b)"
| "js_lt _ _ = False"

fun js_gt :: "jsnum \<Rightarrow> jsnum \<Rightarrow> bool" where
  "js_gt (Num a) (Num b) = (a > b)"
| "js_gt _ _ = False"

text \<open>Truthiness of a number: \<open>0\<close> and \<open>NaN\<close> are falsy. \<open>x || y\<close> is \<open>x\<close> when
  \<open>x\<close> is truthy and \<open>y\<close> otherwise.\<close>

fun truthy :: "jsnum \<Rightarrow> bool" where
  "truthy NaN = False"
| "truthy (Num a) = (a \<noteq> 0)"

definition js_or :: "jsnum \<Rightarrow> jsnum \<Rightarrow> jsnum" where
  "js_or x y = (if truthy x then x else y)"

text \<open>\<open>Math.round\<close>: the nearest integer, a tie going up.\<close>

fun Math_round :: "jsnum \<Rightarrow> jsnum" where
  "Math_round NaN = NaN"
| "Math_round (Num a) = Num (of_int \<lfloor>a + 1 / 2\<rfloor>)"

text \<open>\<open>xs.length\<close> as a number.\<close>

definition js_length :: "'a list \<Rightarrow> jsnum" where
  "js_length xs = Num (of_nat (length xs))"

section \<open>Documents of the four collections\<close>

datatype jsval = VNum jsnum | VStr string | VBool bool | VDate int | VList "jsval list"

text \<open>A project document: its \<open>_id\<close> (the hexadecimal string \<open>_id.toString()\<close> gives) and
  its other properties, in order, by name. Projects are updated by \<open>$set\<close> with
  properties chosen at run time, so they are kept as an association list; \<open>$set\<close> and
  an object spread both overwrite a property in place and append a new one
  (\<open>AList.update\<close>).\<close>

record project =
  p_id :: string
  p_fields :: "(string \<times> jsval) list"

record checkin =
  c_projectId :: string
  c_employeeId :: string
  c_week :: string
  confidenceLevel :: "jsnum option"
  completionPercentage :: "jsnum option"

text \<open>The two feedback routes store different shapes: \<open>POST /api/feedbacks\<close> stores
  \<open>flaggedIssue\<close>, \<open>POST /api/projects/:id/feedbacks\<close> stores \<open>flagIssue\<close>; both store
  \<open>satisfactionRating\<close> and neither stores \<open>satisfaction\<close>. A flag is kept by its
  truthiness.\<close>

record feedback =
  f_projectId :: string
  satisfactionRating :: "jsnum option"
  satisfaction :: "jsnum option"
  flaggedIssue :: "bool option"
  flagIssue :: "bool option"

record risk =
  r_projectId :: string
  r_severity :: string
  r_status :: string

record store =
  projects :: "project list"
  checkins :: "checkin list"
  feedbacks :: "feedback list"
  risks :: "risk list"

section \<open>Policy B: \<open>calculateHealth\<close>\<close>

definition highRisks :: "risk list \<Rightarrow> nat" where
  "highRisks rs = length (filter (\<lambda>r. r_severity r = ''High'' \<and> r_status r = ''Open'') rs)"

definition avgConfidence :: "checkin list \<Rightarrow> jsnum" where
  "avgConfidence cs =
     (if length cs \<noteq> 0
      then js_div (foldl (\<lambda>a b. js_add a (to_number (confidenceLevel b))) (Num 0) cs)
                  (js_length cs)
      else Num 5)"

text \<open>\<open>feedbacks.reduce((a,b)=>a+b.satisfaction || 5,0)\<close>: the callback's body parses as
  \<open>(a + b.satisfaction) || 5\<close>.\<close>

definition avgSatisfaction :: "feedback list \<Rightarrow> jsnum" where
  "avgSatisfaction fs =
     (if length fs \<noteq> 0
      then js_div (foldl (\<lambda>a b. js_or (js_add a (to_number (satisfaction b))) (Num 5)) (Num 0) fs)
                  (js_length fs)
      else Num 5)"

definition calculateHealth ::
  "project \<Rightarrow> risk list \<Rightarrow> checkin list \<Rightarrow> feedback list \<Rightarrow> jsnum" where
  "calculateHealth p rs cs fs =
     (let score0 = Num 100;
          score1 = js_sub score0 (js_mul (Num (of_nat (highRisks rs))) (Num 10));
          score2 = js_mul score1 (js_div (avgConfidence cs) (Num 5));
          score3 = js_mul score2 (js_div (avgSatisfaction fs) (Num 5));
          score4 = (if js_gt score3 (Num 100) then Num 100 else score3);
          score5 = (if js_lt score4 (Num 0) then Num 0 else score4)
      in Math_round score5)"

section \<open>Policy A: the handler of \<open>GET /api/projects/:id/health\<close>\<close>

definition avgClient :: "feedback list \<Rightarrow> jsnum" where
  "avgClient fs =
     (if length fs \<noteq> 0
      then js_div (foldl (\<lambda>a b. js_add a (to_number (satisfactionRating b))) (Num 0) fs)
                  (js_length fs)
      else Num 5)"

definition avgConf :: "checkin list \<Rightarrow> jsnum" where
  "avgConf cs =
     (if length cs \<noteq> 0
      then js_div (foldl (\<lambda>a b. js_add a (to_number (confidenceLevel b))) (Num 0) cs)
                  (js_length cs)
      else Num 5)"

definition avgCompletion :: "checkin list \<Rightarrow> jsnum" where
  "avgCompletion cs =
     (if length cs \<noteq> 0
      then js_div (foldl (\<lambda>a b. js_add a (to_number (completionPercentage b))) (Num 0) cs)
                  (js_length cs)
      else Num 0)"

definition flaggedCount :: "feedback list \<Rightarrow> nat" where
  "flaggedCount fs = length (filter (\<lambda>f. flaggedIssue f = Some True) fs)"

text \<open>The value of \<open>healthScore\<close> at its declaration, before the two clamping
  statements.\<close>

definition rawScore :: "feedback list \<Rightarrow> checkin list \<Rightarrow> jsnum" where
  "rawScore fs cs =
     Math_round
       (js_sub
          (js_add
             (js_add (js_mul (js_mul (avgClient fs) (Num 20)) (Num (2 / 5)))
                     (js_mul (js_mul (avgConf cs) (Num 20)) (Num (2 / 5))))
             (js_mul (avgCompletion cs) (Num (1 / 5))))
          (js_mul (Num (of_nat (flaggedCount fs))) (Num 5)))"

definition clampScore :: "jsnum \<Rightarrow> jsnum" where
  "clampScore h =
     (let h1 = (if js_gt h (Num 100) then Num 100 else h)
      in if js_lt h1 (Num 0) then Num 0 else h1)"

definition healthScore :: "feedback list \<Rightarrow> checkin list \<Rightarrow> jsnum" where
  "healthScore fs cs = clampScore (rawScore fs cs)"

definition statusOf :: "jsnum \<Rightarrow> string" where
  "statusOf h =
     (if js_lt h (Num 60) then ''Critical''
      else if js_lt h (Num 80) then ''At Risk''
      else ''On Track'')"

text \<open>What a handler does with the request: it answers with a status code and a JSON
  body, or an exception leaves it before any answer (this handler has no \<open>try\<close>).\<close>

datatype body =
    Message string
  | Health jsnum string
  | Projects "project list"

datatype response = Responded nat body | Threw

definition findOne :: "string \<Rightarrow> project list \<Rightarrow> project option" where
  "findOne oid ps = find (\<lambda>p. p_id p = oid) ps"

text \<open>\<open>updateOne({_id}, {$set: {healthScore, status, updatedAt}})\<close>: the first document
  with that \<open>_id\<close> gets the three properties; no document is touched when none matches.\<close>

definition set_health :: "jsnum \<Rightarrow> string \<Rightarrow> int \<Rightarrow> project \<Rightarrow> project" where
  "set_health h s now p =
     p\<lparr>p_fields :=
         AList.update ''updatedAt'' (VDate now)
           (AList.update ''status'' (VStr s)
              (AList.update ''healthScore'' (VNum h) (p_fields p)))\<rparr>"

fun updateOne :: "string \<Rightarrow> (project \<Rightarrow> project) \<Rightarrow> project list \<Rightarrow> project list" where
  "updateOne oid f [] = []"
| "updateOne oid f (p # ps) = (if p_id p = oid then f p # ps else p # updateOne oid f ps)"

text \<open>
  The handler body, after the \<open>protect\<close> and \<open>authorize("admin")\<close> middleware let the
  request through. \<open>ObjectId\<close> is the driver's constructor applied to the request's
  \<open>:id\<close> (\<open>None\<close> when it throws on a malformed string), \<open>now\<close> is \<open>new Date()\<close>.
  Feedback and checkins are selected by the raw \<open>:id\<close> string.
\<close>

definition computeHealth ::
  "(string \<Rightarrow> string option) \<Rightarrow> int \<Rightarrow> store \<Rightarrow> string \<Rightarrow> response \<times> store" where
  "computeHealth ObjectId now db projectId =
     (case ObjectId projectId of
        None \<Rightarrow> (Threw, db)
      | Some oid \<Rightarrow>
          (case findOne oid (projects db) of
             None \<Rightarrow> (Responded 404 (Message ''Project not found''), db)
           | Some project \<Rightarrow>
               (let fs = filter (\<lambda>f. f_projectId f = projectId) (feedbacks db);
                    cs = filter (\<lambda>c. c_projectId c = projectId) (checkins db);
                    h = healthScore fs cs;
                    s = statusOf h;
                    db' = db\<lparr>projects := updateOne oid (set_health h s now) (projects db)\<rparr>
                in (Responded 200 (Health h s), db'))))"

section \<open>The admin listings\<close>

text \<open>\<open>GET /api/admin/projects\<close>: every project annotated with its count of open risks
  and its Policy B score. The handler writes nothing.\<close>

definition annotate :: "store \<Rightarrow> project \<Rightarrow> project" where
  "annotate db p =
     (let projectRisks = filter (\<lambda>r. r_projectId r = p_id p) (risks db);
          projectCheckins = filter (\<lambda>c. c_projectId c = p_id p) (checkins db);
          projectFeedbacks = filter (\<lambda>f. f_projectId f = p_id p) (feedbacks db)
      in p\<lparr>p_fields :=
           AList.update ''healthScore''
             (VNum (calculateHealth p projectRisks projectCheckins projectFeedbacks))
             (AList.update ''openRisksCount''
                (VNum (js_length (filter (\<lambda>r. r_status r = ''Open'') projectRisks)))
                (p_fields p))\<rparr>)"

definition computeDashboard :: "store \<Rightarrow> response \<times> store" where
  "computeDashboard db = (Responded 200 (Projects (map (annotate db) (projects db))), db)"

text \<open>\<open>GET /api/admin/projects/missing-checkins\<close>; \<open>week\<close> is what \<open>getCurrentWeek()\<close>
  returns.\<close>

definition missingCheckinsThisPeriod :: "string \<Rightarrow> store \<Rightarrow> response \<times> store" where
  "missingCheckinsThisPeriod week db =
     (let ps = projects db;
          cs = filter (\<lambda>c. c_week c = week) (checkins db);
          missing = filter (\<lambda>p. \<not> list_ex (\<lambda>c. c_projectId c = p_id p) cs) ps
      in (Responded 200 (Projects missing), db))"

section \<open>The same code in binary64 arithmetic\<close>

text \<open>
  The scoring code once more, with every arithmetic result rounded to the nearest
  binary64 number (a tie to the even significand, overflow to an infinity), as JavaScript
  computes it. The sign of zero is left out: no divisor of the code is zero.
\<close>

subsection \<open>Rounding a rational to binary64\<close>

text \<open>\<open>ilog_up z\<close> is the binary exponent of \<open>z \<ge> 1\<close>, \<open>ilog2 z\<close> that of any
  \<open>z > 0\<close>: \<open>2 powi (ilog2 z) \<le> z < 2 powi (ilog2 z + 1)\<close>. \<open>expo\<close> stops at -1022, the
  exponent of the subnormal numbers.\<close>

function ilog_up :: "rat \<Rightarrow> int" where
  "ilog_up z = (if z < 2 then 0 else ilog_up (z / 2) + 1)"
  by pat_completeness auto
termination
proof (relation "measure (\<lambda>z. nat \<lfloor>z\<rfloor>)")
  show "wf (measure (\<lambda>z::rat. nat \<lfloor>z\<rfloor>))" by simp
next
  fix z :: rat
  assume "\<not> z < 2"
  then have "z / 2 \<le> z - 1" by simp
  then have "\<lfloor>z / 2\<rfloor> \<le> \<lfloor>z - 1\<rfloor>" by (rule floor_mono)
  moreover have "2 \<le> \<lfloor>z\<rfloor>" using \<open>\<not> z < 2\<close> by (simp add: le_floor_iff)
  ultimately show "(z / 2, z) \<in> measure (\<lambda>z. nat \<lfloor>z\<rfloor>)" by simp
qed

definition ilog2 :: "rat \<Rightarrow> int" where
  "ilog2 z =
     (if 1 \<le> z then ilog_up z
      else let k = ilog_up (1 / z) in if 2 powi k = 1 / z then - k else - k - 1)"

definition expo :: "rat \<Rightarrow> int" where
  "expo z = max (- 1022) (ilog2 z)"

text \<open>\<open>rhe\<close> rounds to the nearest integer, a tie to the even one; \<open>rd x\<close> keeps 53
  significant bits of \<open>x\<close>; \<open>fl x\<close> is the binary64 number \<open>x\<close> rounds to.\<close>

definition rhe :: "rat \<Rightarrow> int" where
  "rhe r = (let k = \<lfloor>r\<rfloor>
            in if r - of_int k < 1 / 2 \<or> (r - of_int k = 1 / 2 \<and> even k) then k else k + 1)"

definition rd :: "rat \<Rightarrow> rat" where
  "rd x = (if x = 0 then 0
           else let q = 2 powi (expo \<bar>x\<bar> - 52) in of_int (rhe (x / q)) * q)"

datatype double = DNaN | PInf | NInf | Fin rat

definition fl :: "rat \<Rightarrow> double" where
  "fl x = (let y = rd x
           in if 2 ^ 1024 \<le> y then PInf else if y \<le> - (2 ^ 1024) then NInf else Fin y)"

subsection \<open>The operators on binary64 numbers\<close>

text \<open>A stored rating read as a number: \<open>undefined\<close> and \<open>NaN\<close> give \<open>NaN\<close>, a number
  is the binary64 number the JSON parser made of it.\<close>

fun to_double :: "jsnum option \<Rightarrow> double" where
  "to_double None = DNaN"
| "to_double (Some NaN) = DNaN"
| "to_double (Some (Num r)) = fl r"

fun d_add :: "double \<Rightarrow> double \<Rightarrow> double" where
  "d_add (Fin a) (Fin b) = fl (a + b)"
| "d_add DNaN _ = DNaN"
| "d_add _ DNaN = DNaN"
| "d_add PInf NInf = DNaN"
| "d_add NInf PInf = DNaN"
| "d_add PInf _ = PInf"
| "d_add _ PInf = PInf"
| "d_add NInf _ = NInf"
| "d_add _ NInf = NInf"

fun d_neg :: "double \<Rightarrow> double" where
  "d_neg DNaN = DNaN"
| "d_neg PInf = NInf"
| "d_neg NInf = PInf"
| "d_neg (Fin a) = Fin (- a)"

definition d_sub :: "double \<Rightarrow> double \<Rightarrow> double" where
  "d_sub x y = d_add x (d_neg y)"

text \<open>An infinity times zero is \<open>NaN\<close>; otherwise the signs multiply.\<close>

fun d_mul :: "double \<Rightarrow> double \<Rightarrow> double" where
  "d_mul (Fin a) (Fin b) = fl (a * b)"
| "d_mul DNaN _ = DNaN"
| "d_mul _ DNaN = DNaN"
| "d_mul PInf (Fin b) = (if b = 0 then DNaN else if 0 < b then PInf else NInf)"
| "d_mul NInf (Fin b) = (if b = 0 then DNaN else if 0 < b then NInf else PInf)"
| "d_mul (Fin a) PInf = (if a = 0 then DNaN else if 0 < a then PInf else NInf)"
| "d_mul (Fin a) NInf = (if a = 0 then DNaN else if 0 < a then NInf else PInf)"
| "d_mul PInf PInf = PInf"
| "d_mul NInf NInf = PInf"
| "d_mul PInf NInf = NInf"
| "d_mul NInf PInf = NInf"

text \<open>Division. Every divisor in the code is a non-zero array length or the literal 5; a
  zero divisor is given \<open>NaN\<close> and never reached.\<close>

fun d_div :: "double \<Rightarrow> double \<Rightarrow> double" where
  "d_div (Fin a) (Fin b) = (if b = 0 then DNaN else fl (a / b))"
| "d_div DNaN _ = DNaN"
| "d_div _ DNaN = DNaN"
| "d_div PInf (Fin b) = (if b = 0 then DNaN else if 0 < b then PInf else NInf)"
| "d_div NInf (Fin b) = (if b = 0 then DNaN else if 0 < b then NInf else PInf)"
| "d_div (Fin a) _ = Fin 0"
| "d_div _ _ = DNaN"

fun d_lt :: "double \<Rightarrow> double \<Rightarrow> bool" where
  "d_lt (Fin a) (Fin b) = (a < b)"
| "d_lt DNaN _ = False"
| "d_lt _ DNaN = False"
| "d_lt NInf NInf = False"
| "d_lt NInf _ = True"
| "d_lt PInf _ = False"
| "d_lt _ PInf = True"
| "d_lt _ NInf = False"

definition d_gt :: "double \<Rightarrow> double \<Rightarrow> bool" where
  "d_gt x y = d_lt y x"

fun d_truthy :: "double \<Rightarrow> bool" where
  "d_truthy DNaN = False"
| "d_truthy (Fin a) = (a \<noteq> 0)"
| "d_truthy _ = True"

definition d_or :: "double \<Rightarrow> double \<Rightarrow> double" where
  "d_or x y = (if d_truthy x then x else y)"

text \<open>\<open>Math.round\<close> is exact: a binary64 number below \<open>2^52\<close> in magnitude has an integer
  within reach, a larger one is an integer.\<close>

fun Math_round64 :: "double \<Rightarrow> double" where
  "Math_round64 (Fin a) = Fin (of_int \<lfloor>a + 1 / 2\<rfloor>)"
| "Math_round64 x = x"

definition d_length :: "'a list \<Rightarrow> double" where
  "d_length xs = fl (of_nat (length xs))"

subsection \<open>Policy B and Policy A, operator by operator\<close>

definition avgConfidence64 :: "checkin list \<Rightarrow> double" where
  "avgConfidence64 cs =
     (if length cs \<noteq> 0
      then d_div (foldl (\<lambda>a b. d_add a (to_double (confidenceLevel b))) (Fin 0) cs)
                 (d_length cs)
      else Fin 5)"

definition avgSatisfaction64 :: "feedback list \<Rightarrow> double" where
  "avgSatisfaction64 fs =
     (if length fs \<noteq> 0
      then d_div (foldl (\<lambda>a b. d_or (d_add a (to_double (satisfaction b))) (Fin 5)) (Fin 0) fs)
                 (d_length fs)
      else Fin 5)"

definition calculateHealth64 ::
  "project \<Rightarrow> risk list \<Rightarrow> checkin list \<Rightarrow> feedback list \<Rightarrow> double" where
  "calculateHealth64 p rs cs fs =
     (let score0 = Fin 100;
          score1 = d_sub score0 (d_mul (fl (of_nat (highRisks rs))) (Fin 10));
          score2 = d_mul score1 (d_div (avgConfidence64 cs) (Fin 5));
          score3 = d_mul score2 (d_div (avgSatisfaction64 fs) (Fin 5));
          score4 = (if d_gt score3 (Fin 100) then Fin 100 else score3);
          score5 = (if d_lt score4 (Fin 0) then Fin 0 else score4)
      in Math_round64 score5)"

definition avgClient64 :: "feedback list \<Rightarrow> double" where
  "avgClient64 fs =
     (if length fs \<noteq> 0
      then d_div (foldl (\<lambda>a b. d_add a (to_double (satisfactionRating b))) (Fin 0) fs)
                 (d_length fs)
      else Fin 5)"

definition avgConf64 :: "checkin list \<Rightarrow> double" where
  "avgConf64 cs =
     (if length cs \<noteq> 0
      then d_div (foldl (\<lambda>a b. d_add a (to_double (confidenceLevel b))) (Fin 0) cs)
                 (d_length cs)
      else Fin 5)"

definition avgCompletion64 :: "checkin list \<Rightarrow> double" where
  "avgCompletion64 cs =
     (if length cs \<noteq> 0
      then d_div (foldl (\<lambda>a b. d_add a (to_double (completionPercentage b))) (Fin 0) cs)
                 (d_length cs)
      else Fin 0)"

text \<open>The literals \<open>0.4\<close> and \<open>0.2\<close> are the binary64 numbers nearest to 2/5 and 1/5.\<close>

definition rawScore64 :: "feedback list \<Rightarrow> checkin list \<Rightarrow> double" where
  "rawScore64 fs cs =
     Math_round64
       (d_sub
          (d_add
             (d_add (d_mul (d_mul (avgClient64 fs) (Fin 20)) (fl (2 / 5)))
                    (d_mul (d_mul (avgConf64 cs) (Fin 20)) (fl (2 / 5))))
             (d_mul (avgCompletion64 cs) (fl (1 / 5))))
          (d_mul (fl (of_nat (flaggedCount fs))) (Fin 5)))"

definition clampScore64 :: "double \<Rightarrow> double" where
  "clampScore64 h =
     (let h1 = (if d_gt h (Fin 100) then Fin 100 else h)
      in if d_lt h1 (Fin 0) then Fin 0 else h1)"

definition healthScore64 :: "feedback list \<Rightarrow> checkin list \<Rightarrow> double" where
  "healthScore64 fs cs = clampScore64 (rawScore64 fs cs)"

section \<open>Notions used to state the properties\<close>

text \<open>A rating property is numeric when the document has it and it holds a number other
  than \<open>NaN\<close>; \<open>the_num\<close> is that number.\<close>

fun numeric :: "jsnum option \<Rightarrow> bool" where
  "numeric (Some (Num r)) = True"
| "numeric _ = False"

fun the_num :: "jsnum option \<Rightarrow> rat" where
  "the_num (Some (Num r)) = r"
| "the_num _ = 0"

text \<open>The arithmetic mean of a list, \<open>d\<close> when the list is empty.\<close>

definition mean :: "rat \<Rightarrow> rat list \<Rightarrow> rat" where
  "mean d xs = (if xs = [] then d else sum_list xs / of_nat (length xs))"


text \<open>The multiplicative formula of Policy B as the specification gives it, in exact
  arithmetic, for \<open>h\<close> risks of severity High and status Open, the confidence levels
  and the satisfaction ratings: from 100, minus \<open>10 h\<close>, times the mean confidence over
  5, times the mean satisfaction over 5 (a mean being 5 for no records), rounded, then
  clamped into 0..100.\<close>

definition spec_policyB :: "nat \<Rightarrow> rat list \<Rightarrow> rat list \<Rightarrow> int" where
  "spec_policyB h confs sats =
     max 0 (min 100 \<lfloor>(100 - 10 * of_nat h) * (mean 5 confs / 5) * (mean 5 sats / 5) + 1 / 2\<rfloor>)"

text \<open>The driver's \<open>ObjectId\<close> constructor on a string: 24 hexadecimal digits denote
  an identifier, written in lower case by \<open>toString()\<close>; on any other string considered
  here the constructor throws.\<close>

definition hex_digit :: "char \<Rightarrow> bool" where
  "hex_digit c = (c \<in> set ''0123456789abcdefABCDEF'')"

definition lower_hex :: "char \<Rightarrow> char" where
  "lower_hex c =
     (if c = CHR ''A'' then CHR ''a'' else if c = CHR ''B'' then CHR ''b''
      else if c = CHR ''C'' then CHR ''c'' else if c = CHR ''D'' then CHR ''d''
      else if c = CHR ''E'' then CHR ''e'' else if c = CHR ''F'' then CHR ''f'' else c)"

definition hexObjectId :: "string \<Rightarrow> string option" where
  "hexObjectId s =
     (if length s = 24 \<and> list_all hex_digit s then Some (map lower_hex s) else None)"

text \<open>Some checkin of the period \<open>week\<close> names the project \<open>p\<close>, whoever submitted it.\<close>

definition has_checkin :: "string \<Rightarrow> store \<Rightarrow> project \<Rightarrow> bool" where
  "has_checkin week db p =
     list_ex (\<lambda>c. c_week c = week \<and> c_projectId c = p_id p) (checkins db)"

text \<open>The properties a health computation may write on a project.\<close>

definition health_fields :: "string set" where
  "health_fields = {''healthScore'', ''status'', ''updatedAt''}"

text \<open>Concrete documents for the examples.\<close>

definition project1 :: project where
  "project1 =
     \<lparr>p_id = ''a1'',
      p_fields = [(''name'', VStr ''Alpha''), (''status'', VStr ''On Track''),
                  (''healthScore'', VNum (Num 100)), (''updatedAt'', VDate 1)]\<rparr>"

definition project2 :: project where
  "project2 = \<lparr>p_id = ''b2'', p_fields = [(''name'', VStr ''Beta'')]\<rparr>"

definition project3 :: project where
  "project3 = \<lparr>p_id = ''c3'', p_fields = [(''name'', VStr ''Gamma'')]\<rparr>"

definition mk_checkin :: "string \<Rightarrow> string \<Rightarrow> rat \<Rightarrow> rat \<Rightarrow> checkin" where
  "mk_checkin pid week conf compl =
     \<lparr>c_projectId = pid, c_employeeId = ''e1'', c_week = week,
      confidenceLevel = Some (Num conf), completionPercentage = Some (Num compl)\<rparr>"

text \<open>A feedback document as \<open>POST /api/feedbacks\<close> stores it: \<open>satisfactionRating\<close> and
  \<open>flaggedIssue\<close>, no \<open>satisfaction\<close>.\<close>

definition mk_feedback :: "string \<Rightarrow> rat \<Rightarrow> bool \<Rightarrow> feedback" where
  "mk_feedback pid rating flagged =
     \<lparr>f_projectId = pid, satisfactionRating = Some (Num rating), satisfaction = None,
      flaggedIssue = Some flagged, flagIssue = None\<rparr>"

definition mk_risk :: "string \<Rightarrow> string \<Rightarrow> string \<Rightarrow> risk" where
  "mk_risk pid sev st = \<lparr>r_projectId = pid, r_severity = sev, r_status = st\<rparr>"

text \<open>The scenario of the specification: project \<open>a1\<close> has two feedback entries rated 4
  and 5, none flagged, and two checkins with confidence 3 and 5 and completion 50 and 70;
  the two other projects have no records but one low risk.\<close>

definition example_feedbacks :: "feedback list" where
  "example_feedbacks = [mk_feedback ''a1'' 4 False, mk_feedback ''a1'' 5 False]"

definition example_checkins :: "checkin list" where
  "example_checkins = [mk_checkin ''a1'' ''2026-W45'' 3 50, mk_checkin ''a1'' ''2026-W45'' 5 70]"

definition example_store :: store where
  "example_store =
     \<lparr>projects = [project1, project2, project3], checkins = example_checkins,
      feedbacks = example_feedbacks,
      risks = [mk_risk ''a1'' ''High'' ''Open'', mk_risk ''b2'' ''Low'' ''Open'']\<rparr>"

text \<open>The largest power of two among the binary64 numbers, about \<open>8.98846567431158e307\<close>.\<close>

definition huge :: rat where
  "huge = 2 ^ 1023"

text \<open>The order of the binary64 numbers with the infinities at its ends; \<open>NaN\<close> is not
  comparable. \<open>never_above x y\<close>: \<open>x\<close> is at most \<open>y\<close>, unless one of them is \<open>NaN\<close>.\<close>

fun d_le :: "double \<Rightarrow> double \<Rightarrow> bool" where
  "d_le (Fin a) (Fin b) = (a \<le> b)"
| "d_le DNaN _ = False"
| "d_le _ DNaN = False"
| "d_le NInf _ = True"
| "d_le _ PInf = True"
| "d_le _ _ = False"

definition never_above :: "double \<Rightarrow> double \<Rightarrow> bool" where
  "never_above x y = (x = DNaN \<or> y = DNaN \<or> d_le x y)"

text \<open>A binary64 value that is not negative: zero or more, plus infinity, or \<open>NaN\<close>.\<close>

definition nn :: "double \<Rightarrow> bool" where
  "nn x = (x = DNaN \<or> d_le (Fin 0) x)"

text \<open>A stored rating that is not a negative number: absent, \<open>NaN\<close>, or zero or more.\<close>

fun not_negative :: "jsnum option \<Rightarrow> bool" where
  "not_negative (Some (Num r)) = (0 \<le> r)"
| "not_negative _ = True"

text \<open>Clamping into 0..100 and then rounding, on a rational.\<close>

definition clamp_round :: "rat \<Rightarrow> int" where
  "clamp_round a = \<lfloor>max 0 (min 100 a) + 1 / 2\<rfloor>"

section \<open>The aggregates on numeric input\<close>

lemma floor_divide_numeral_rat: "\<lfloor>(numeral a :: rat) / numeral b\<rfloor> = numeral a div numeral b"
  using floor_divide_of_int_eq [where ?'a = rat, of "numeral a" "numeral b"] by simp

lemma floor_half_rat: "\<lfloor>(1::rat) / 2\<rfloor> = 0"
  by (simp add: floor_eq_iff)

lemma numeric_to_number: "numeric v \<Longrightarrow> to_number v = Num (the_num v)"
  by (cases v rule: numeric.cases) simp_all

lemma foldl_add_numeric:
  "list_all (\<lambda>x. numeric (g x)) xs \<Longrightarrow>
   foldl (\<lambda>a b. js_add a (to_number (g b))) (Num a0) xs
     = Num (a0 + sum_list (map (\<lambda>x. the_num (g x)) xs))"
proof (induction xs arbitrary: a0)
  case Nil
  then show ?case by simp
next
  case (Cons x xs)
  then show ?case by (simp add: numeric_to_number add.assoc)
qed



lemma avgConfidence_numeric:
  "list_all (\<lambda>c. numeric (confidenceLevel c)) cs \<Longrightarrow>
   avgConfidence cs = Num (mean 5 (map (\<lambda>c. the_num (confidenceLevel c)) cs))"
  by (simp add: avgConfidence_def mean_def js_length_def foldl_add_numeric)




section \<open>Rounding to binary64 is monotone\<close>

lemma ilog_up_spec:
  "1 \<le> z \<Longrightarrow> 0 \<le> ilog_up z \<and> 2 powi (ilog_up z) \<le> z \<and> z < 2 powi (ilog_up z + 1)"
proof (induction z rule: ilog_up.induct)
  case (1 z)
  show ?case
  proof (cases "z < 2")
    case True
    with "1.prems" show ?thesis by simp
  next
    case False
    then have "1 \<le> z / 2" by simp
    with "1.IH" False
    have ih: "0 \<le> ilog_up (z / 2)" "2 powi (ilog_up (z / 2)) \<le> z / 2"
      "z / 2 < 2 powi (ilog_up (z / 2) + 1)" by simp_all
    have e: "ilog_up z = ilog_up (z / 2) + 1" using False by simp
    have "2 powi (ilog_up (z / 2) + 1) = 2 powi (ilog_up (z / 2)) * (2::rat)"
      by (simp add: power_int_add)
    moreover have "2 powi (ilog_up (z / 2) + 1 + 1) = 2 powi (ilog_up (z / 2) + 1) * (2::rat)"
      by (simp add: power_int_add)
    ultimately show ?thesis using ih unfolding e by simp
  qed
qed

lemma ilog2_spec:
  assumes "0 < z"
  shows "2 powi (ilog2 z) \<le> z \<and> z < 2 powi (ilog2 z + 1)"
proof (cases "1 \<le> z")
  case True
  then show ?thesis using ilog_up_spec [of z] by (simp add: ilog2_def)
next
  case False
  define w where "w = 1 / z"
  define k where "k = ilog_up w"
  have w1: "1 \<le> w" using assms False by (simp add: w_def)
  have z: "z = 1 / w" by (simp add: w_def)
  have k: "2 powi k \<le> w" "w < 2 powi (k + 1)"
    using ilog_up_spec [OF w1] by (simp_all add: k_def)
  have pk: "(0::rat) < 2 powi k" and pk1: "(0::rat) < 2 powi (k + 1)" by simp_all
  have wpos: "0 < w" using w1 by simp
  show ?thesis
  proof (cases "2 powi k = w")
    case True
    then have e: "ilog2 z = - k" using False by (simp add: ilog2_def w_def k_def Let_def)
    have "2 powi (- k) = (1::rat) / 2 powi k" by (simp add: power_int_minus_divide)
    then have v: "2 powi (- k) = z" using True z by simp
    have "(2::rat) powi (- k) < 2 powi (- k + 1)"
      by (intro power_int_strict_increasing) simp_all
    then show ?thesis unfolding e using v by simp
  next
    case False
    then have e: "ilog2 z = - k - 1" using \<open>\<not> 1 \<le> z\<close> by (simp add: ilog2_def w_def k_def Let_def)
    have lt: "2 powi k < w" using False k(1) by simp
    have a: "2 powi (- k - 1) = (1::rat) / 2 powi (k + 1)"
      using power_int_minus_divide [of "2::rat" "k + 1"] by simp
    have b: "2 powi (- k - 1 + 1) = (1::rat) / 2 powi k"
      using power_int_minus_divide [of "2::rat" k] by simp
    have "1 / 2 powi (k + 1) < 1 / w"
      using k(2) wpos by (simp add: field_simps)
    then have "2 powi (- k - 1) \<le> z" using a z by simp
    moreover have "1 / w < 1 / 2 powi k"
      using lt pk by (simp add: frac_less2)
    then have "z < 2 powi (- k - 1 + 1)" using b z by simp
    ultimately show ?thesis unfolding e by simp
  qed
qed

lemma pow2_less_cancel:
  assumes "(2::rat) powi a < 2 powi b"
  shows "a < b"
proof (rule ccontr)
  assume "\<not> a < b"
  then have "(2::rat) powi b \<le> 2 powi a" by (intro power_int_increasing) simp_all
  with assms show False by simp
qed

lemma ilog2_mono:
  assumes "0 < x" and "x \<le> y"
  shows "ilog2 x \<le> ilog2 y"
proof -
  have "2 powi (ilog2 x) \<le> x" using ilog2_spec [OF assms(1)] by simp
  also have "x \<le> y" by fact
  also have "y < 2 powi (ilog2 y + 1)" using ilog2_spec [of y] assms by simp
  finally have "(2::rat) powi (ilog2 x) < 2 powi (ilog2 y + 1)" .
  then have "ilog2 x < ilog2 y + 1"
    by (rule pow2_less_cancel)
  then show ?thesis by simp
qed


lemma expo_mono: "0 < x \<Longrightarrow> x \<le> y \<Longrightarrow> expo x \<le> expo y"
  using ilog2_mono [of x y] by (simp add: expo_def)

lemma expo_upper: "0 < z \<Longrightarrow> z < 2 powi (expo z + 1)"
proof -
  assume z: "0 < z"
  have "z < 2 powi (ilog2 z + 1)" using ilog2_spec [OF z] by simp
  also have "(2::rat) powi (ilog2 z + 1) \<le> 2 powi (expo z + 1)"
    by (intro power_int_increasing) (simp_all add: expo_def)
  finally show ?thesis .
qed

lemma expo_lower: "0 < z \<Longrightarrow> - 1022 < expo z \<Longrightarrow> 2 powi (expo z) \<le> z"
  using ilog2_spec [of z] by (simp add: expo_def max_def split: if_splits)

lemma rhe_of_int [simp]: "rhe (of_int k) = k"
  by (simp add: rhe_def)

lemma rhe_bounds: "\<lfloor>r\<rfloor> \<le> rhe r \<and> rhe r \<le> \<lfloor>r\<rfloor> + 1"
  by (simp add: rhe_def Let_def)

lemma rhe_mono:
  assumes "r \<le> s"
  shows "rhe r \<le> rhe s"
proof (cases "\<lfloor>r\<rfloor> = \<lfloor>s\<rfloor>")
  case True
  with assms show ?thesis by (auto simp: rhe_def Let_def)
next
  case False
  with assms have "\<lfloor>r\<rfloor> < \<lfloor>s\<rfloor>" using floor_mono [OF assms] by simp
  then show ?thesis using rhe_bounds [of r] rhe_bounds [of s] by linarith
qed

lemma rhe_minus: "rhe (- r) = - rhe r"
proof (cases "r = of_int \<lfloor>r\<rfloor>")
  case True
  then have "- r = of_int (- \<lfloor>r\<rfloor>)" by simp
  then have "rhe (- r) = - \<lfloor>r\<rfloor>" by (simp only: rhe_of_int)
  moreover have "rhe r = \<lfloor>r\<rfloor>" using True rhe_of_int [of "\<lfloor>r\<rfloor>"] by simp
  ultimately show ?thesis by simp
next
  case False
  define k where "k = \<lfloor>r\<rfloor>"
  have "of_int k \<le> r" unfolding k_def by (rule of_int_floor_le)
  moreover have "of_int k \<noteq> r" using False unfolding k_def by (rule not_sym)
  ultimately have lt1: "of_int k < r" by (simp add: less_le)
  have lt2: "r < of_int k + 1" unfolding k_def by linarith
  note lt = lt1 lt2
  have fl: "\<lfloor>- r\<rfloor> = - k - 1"
    using lt by (intro floor_unique) simp_all
  have ev: "even (- k - 1) \<longleftrightarrow> odd k" by simp
  show ?thesis
    unfolding rhe_def Let_def fl k_def [symmetric] ev
    using lt by (auto simp: algebra_simps)
qed

lemma rd_minus: "rd (- x) = - rd x"
  by (simp add: rd_def Let_def rhe_minus)

lemma rd_nonneg:
  assumes "0 \<le> x"
  shows "0 \<le> rd x"
proof (cases "x = 0")
  case True
  then show ?thesis by (simp add: rd_def)
next
  case False
  define q :: rat where "q = 2 powi (expo \<bar>x\<bar> - 52)"
  have q: "0 < q" by (simp add: q_def)
  have "0 \<le> x / q" using assms q by simp
  then have "rhe 0 \<le> rhe (x / q)" by (rule rhe_mono)
  then have "0 \<le> rhe (x / q)" using rhe_of_int [of 0] by simp
  then show ?thesis using False q by (simp add: rd_def Let_def q_def [symmetric])
qed

lemma rd_mono_pos:
  assumes "0 < x" and "x \<le> y"
  shows "rd x \<le> rd y"
proof -
  define ex where "ex = expo x"
  define ey where "ey = expo y"
  define qx :: rat where "qx = 2 powi (ex - 52)"
  define qy :: rat where "qy = 2 powi (ey - 52)"
  have y: "0 < y" using assms by simp
  have qx: "0 < qx" and qy: "0 < qy" by (simp_all add: qx_def qy_def)
  have rx: "rd x = of_int (rhe (x / qx)) * qx"
    using assms(1) by (simp add: rd_def Let_def qx_def ex_def)
  have ry: "rd y = of_int (rhe (y / qy)) * qy"
    using y by (simp add: rd_def Let_def qy_def ey_def)
  have le: "ex \<le> ey" unfolding ex_def ey_def using assms by (rule expo_mono)
  show ?thesis
  proof (cases "ex = ey")
    case True
    then have "qx = qy" by (simp add: qx_def qy_def)
    moreover have "x / qy \<le> y / qy" using assms(2) qy by (simp add: divide_right_mono)
    then have "rhe (x / qy) \<le> rhe (y / qy)" by (rule rhe_mono)
    ultimately show ?thesis using qy by (simp add: rx ry)
  next
    case False
    with le have lt: "ex < ey" by simp
    have p53: "2 powi (ex + 1) = (2 ^ 53) * qx"
    proof -
      have "ex + 1 = 53 + (ex - 52)" by linarith
      then have "(2::rat) powi (ex + 1) = 2 powi (53 + (ex - 52))" by (rule arg_cong)
      also have "\<dots> = 2 powi 53 * 2 powi (ex - 52)" by (rule power_int_add) simp
      finally show ?thesis by (simp add: qx_def)
    qed
    have p52: "2 powi ey = (2 ^ 52) * qy"
    proof -
      have "ey = 52 + (ey - 52)" by linarith
      then have "(2::rat) powi ey = 2 powi (52 + (ey - 52))" by (rule arg_cong)
      also have "\<dots> = 2 powi 52 * 2 powi (ey - 52)" by (rule power_int_add) simp
      finally show ?thesis by (simp add: qy_def)
    qed
    have "x < 2 powi (ex + 1)" unfolding ex_def using assms(1) by (rule expo_upper)
    then have "x / qx \<le> of_int (2 ^ 53)" using qx by (simp add: p53 divide_le_eq)
    then have "rhe (x / qx) \<le> rhe (of_int (2 ^ 53))" by (rule rhe_mono)
    then have "rhe (x / qx) \<le> 2 ^ 53" by (simp only: rhe_of_int)
    then have "(of_int (rhe (x / qx)) :: rat) \<le> of_int (2 ^ 53)" by (simp only: of_int_le_iff)
    then have "rd x \<le> 2 ^ 53 * qx" using qx by (simp add: rx)
    then have a: "rd x \<le> 2 powi (ex + 1)" by (simp add: p53)
    have "- 1022 < ey" using lt by (simp add: ex_def expo_def)
    then have "2 powi ey \<le> y" unfolding ey_def using y expo_lower by blast
    then have "of_int (2 ^ 52) \<le> y / qy" using qy by (simp add: p52 le_divide_eq)
    then have "rhe (of_int (2 ^ 52)) \<le> rhe (y / qy)" by (rule rhe_mono)
    then have "2 ^ 52 \<le> rhe (y / qy)" by (simp only: rhe_of_int)
    then have "(of_int (2 ^ 52) :: rat) \<le> of_int (rhe (y / qy))" by (simp only: of_int_le_iff)
    then have "2 ^ 52 * qy \<le> rd y" using qy by (simp add: ry)
    then have b: "2 powi ey \<le> rd y" by (simp add: p52)
    have "(2::rat) powi (ex + 1) \<le> 2 powi ey"
      using lt by (intro power_int_increasing) simp_all
    with a b show ?thesis by linarith
  qed
qed

lemma rd_mono:
  assumes "x \<le> y"
  shows "rd x \<le> rd y"
proof -
  consider "0 < x" | "x \<le> 0" "0 \<le> y" | "y < 0" by linarith
  then show ?thesis
  proof cases
    case 1
    then show ?thesis using assms by (rule rd_mono_pos)
  next
    case 2
    have "0 \<le> rd y" using 2(2) by (rule rd_nonneg)
    moreover have "0 \<le> rd (- x)" using 2(1) by (intro rd_nonneg) simp
    then have "rd x \<le> 0" by (simp add: rd_minus)
    ultimately show ?thesis by simp
  next
    case 3
    then have "0 < - y" "- y \<le> - x" using assms by simp_all
    then have "rd (- y) \<le> rd (- x)" by (rule rd_mono_pos)
    then show ?thesis by (simp add: rd_minus)
  qed
qed


section \<open>The handler of the health route, case by case\<close>

lemma computeHealth_found:
  assumes "ObjectId pid = Some oid" and "findOne oid (projects db) = Some p"
  shows "computeHealth ObjectId now db pid =
     (let h = healthScore (filter (\<lambda>f. f_projectId f = pid) (feedbacks db))
                          (filter (\<lambda>c. c_projectId c = pid) (checkins db))
      in (Responded 200 (Health h (statusOf h)),
          db\<lparr>projects := updateOne oid (set_health h (statusOf h) now) (projects db)\<rparr>))"
  using assms by (simp add: computeHealth_def Let_def)

lemma computeHealth_answer:
  assumes "fst (computeHealth ObjectId now db pid) = Responded code (Health h s)"
  shows "h = healthScore (filter (\<lambda>f. f_projectId f = pid) (feedbacks db))
                         (filter (\<lambda>c. c_projectId c = pid) (checkins db))
         \<and> s = statusOf h \<and> code = 200"
  using assms by (auto simp: computeHealth_def Let_def split: option.splits)

section \<open>The two scores on numeric input, exactly\<close>


lemma calculateHealth_Num:
  assumes "avgConfidence cs = Num c" and "avgSatisfaction fs = Num t"
  shows "calculateHealth p rs cs fs =
     Num (of_int \<lfloor>max 0 (min 100 ((100 - of_nat (highRisks rs) * 10) * (c / 5) * (t / 5))) + 1 / 2\<rfloor>)"
  using assms by (simp add: calculateHealth_def Let_def max_def min_def)


lemmas example_defs =
  example_store_def example_feedbacks_def example_checkins_def project1_def project2_def
  project3_def mk_checkin_def mk_feedback_def mk_risk_def

section \<open>The scenario, evaluated\<close>

lemma example_a1_records:
  "filter (\<lambda>f. f_projectId f = ''a1'') (feedbacks example_store) = example_feedbacks"
  "filter (\<lambda>c. c_projectId c = ''a1'') (checkins example_store) = example_checkins"
  by (simp_all add: example_defs)

lemma example_a1_score: "healthScore example_feedbacks example_checkins = Num 80"
  by code_simp

lemma example_a1_found: "findOne ''a1'' (projects example_store) = Some project1"
  by (simp add: findOne_def example_defs)

lemma example_a1_answer:
  "fst (computeHealth Some now example_store ''a1'') = Responded 200 (Health (Num 80) ''On Track'')"
  by (simp add: computeHealth_found [of Some "''a1''" "''a1''" example_store project1, OF refl example_a1_found]
      example_a1_records example_a1_score statusOf_def Let_def)


section \<open>Defaults and thresholds of Policy A\<close>

lemma healthScore_empty: "healthScore [] [] = Num 80"
  by code_simp

lemma statusOf_Num:
  "statusOf (Num s) = (if s < 60 then ''Critical'' else if s < 80 then ''At Risk'' else ''On Track'')"
  by (simp add: statusOf_def)

text \<open>
  C2, as amended. For a project that exists and has no feedback and no checkin records,
  the health route answers with score 80 and status "On Track": 80 is not below 80, so
  the status is not "At Risk".
\<close>

theorem default_score_on_track:
  assumes "ObjectId pid = Some oid"
    and "findOne oid (projects db) = Some p"
    and "filter (\<lambda>f. f_projectId f = pid) (feedbacks db) = []"
    and "filter (\<lambda>c. c_projectId c = pid) (checkins db) = []"
  shows "fst (computeHealth ObjectId now db pid) = Responded 200 (Health (Num 80) ''On Track'')"
  using assms
  by (simp add: computeHealth_found healthScore_empty statusOf_Num Let_def)

theorem default_score_on_track_witness:
  "findOne ''b2'' (projects example_store) = Some project2
   \<and> filter (\<lambda>f. f_projectId f = ''b2'') (feedbacks example_store) = []
   \<and> filter (\<lambda>c. c_projectId c = ''b2'') (checkins example_store) = []
   \<and> fst (computeHealth Some 0 example_store ''b2'') = Responded 200 (Health (Num 80) ''On Track'')"
proof -
  have h1: "Some ''b2'' = Some ''b2''" by simp
  have h2: "findOne ''b2'' (projects example_store) = Some project2"
    by (simp add: findOne_def example_defs)
  have h3: "filter (\<lambda>f. f_projectId f = ''b2'') (feedbacks example_store) = []"
    by (simp add: example_defs)
  have h4: "filter (\<lambda>c. c_projectId c = ''b2'') (checkins example_store) = []"
    by (simp add: example_defs)
  show ?thesis
    using h2 h3 h4 default_score_on_track [of Some "''b2''" "''b2''" example_store project2 0, OF h1 h2 h3 h4]
    by simp
qed

text \<open>The claim as written (status "At Risk" at the default score) fails on a store whose
  only project has no records.\<close>

theorem default_status_counterexample:
  "fst (computeHealth Some 0
          \<lparr>projects = [project2], checkins = [], feedbacks = [], risks = []\<rparr> ''b2'')
     = Responded 200 (Health (Num 80) ''On Track'')
   \<and> fst (computeHealth Some 0
          \<lparr>projects = [project2], checkins = [], feedbacks = [], risks = []\<rparr> ''b2'')
     \<noteq> Responded 200 (Health (Num 80) ''At Risk'')"
  by (simp add: computeHealth_def findOne_def project2_def healthScore_empty statusOf_Num Let_def)

text \<open>
  C3. The status the health route answers with is \<open>statusOf\<close> of the score it answers
  with, and \<open>statusOf\<close> maps a score below 60 to "Critical", a score from 60 up to but not
  including 80 to "At Risk", and a score of 80 or more to "On Track"; so 59 is Critical,
  60 and 79 are At Risk, 80 is On Track.
\<close>

theorem status_function_of_score:
  "(fst (computeHealth ObjectId now db pid) = Responded code (Health h st) \<longrightarrow> st = statusOf h)
   \<and> statusOf (Num s) = (if s < 60 then ''Critical'' else if s < 80 then ''At Risk'' else ''On Track'')
   \<and> statusOf (Num 59) = ''Critical'' \<and> statusOf (Num 60) = ''At Risk''
   \<and> statusOf (Num 79) = ''At Risk'' \<and> statusOf (Num 80) = ''On Track''"
proof (intro conjI impI)
  assume a: "fst (computeHealth ObjectId now db pid) = Responded code (Health h st)"
  show "st = statusOf h" using computeHealth_answer [OF a] by (elim conjE)
next
  show "statusOf (Num s) = (if s < 60 then ''Critical'' else if s < 80 then ''At Risk'' else ''On Track'')"
    by (rule statusOf_Num)
next
  show "statusOf (Num 59) = ''Critical''" by (simp add: statusOf_Num)
next
  show "statusOf (Num 60) = ''At Risk''" by (simp add: statusOf_Num)
next
  show "statusOf (Num 79) = ''At Risk''" by (simp add: statusOf_Num)
next
  show "statusOf (Num 80) = ''On Track''" by (simp add: statusOf_Num)
qed

theorem status_function_of_score_witness:
  "fst (computeHealth Some 0 example_store ''a1'') = Responded 200 (Health (Num 80) ''On Track'')
   \<and> ''On Track'' = statusOf (Num 80)"
proof -
  have h: "fst (computeHealth Some 0 example_store ''a1'') = Responded 200 (Health (Num 80) ''On Track'')"
    by (rule example_a1_answer)
  have "''On Track'' = statusOf (Num 80)"
    using conjunct1 [OF status_function_of_score
        [of Some 0 example_store "''a1''" 200 "Num 80" "''On Track''" 0]] h
    by (rule mp)
  with h show ?thesis by (rule conjI)
qed


section \<open>A project that does not exist\<close>

lemma findOne_None: "list_all (\<lambda>p. p_id p \<noteq> oid) ps \<Longrightarrow> findOne oid ps = None"
  by (induction ps) (simp_all add: findOne_def)

text \<open>For an identifier the driver accepts and that no project has, the route answers 404
  and leaves the store as it found it.\<close>

lemma unknown_id_not_found:
  assumes "ObjectId pid = Some oid" and "list_all (\<lambda>p. p_id p \<noteq> oid) (projects db)"
  shows "computeHealth ObjectId now db pid = (Responded 404 (Message ''Project not found''), db)"
  using assms by (simp add: computeHealth_def findOne_None)

lemma example_unknown_id:
  "computeHealth hexObjectId 0 example_store ''0123456789abcdef01234567''
   = (Responded 404 (Message ''Project not found''), example_store)"
proof (rule unknown_id_not_found)
  show "hexObjectId ''0123456789abcdef01234567'' = Some ''0123456789abcdef01234567''"
    by (simp add: hexObjectId_def hex_digit_def lower_hex_def)
  show "list_all (\<lambda>p. p_id p \<noteq> ''0123456789abcdef01234567'') (projects example_store)"
    by (simp add: example_defs)
qed

lemma computeHealth_no_write_unless_200:
  "(\<forall>h s. fst (computeHealth ObjectId now db pid) \<noteq> Responded 200 (Health h s))
   \<Longrightarrow> snd (computeHealth ObjectId now db pid) = db"
  by (auto simp: computeHealth_def Let_def split: option.splits)

text \<open>
  C8. A request for the health of a project that does not exist is to be answered with
  Not-Found. For the identifier \<open>not-an-id\<close>, which no project can have, the handler
  answers nothing: \<open>new ObjectId\<close> throws outside any \<open>try\<close>, where the route
  \<open>GET /api/projects/:projectId\<close> catches the same exception and answers. The store is
  left as it was.
\<close>

theorem malformed_id_throws:
  "hexObjectId ''not-an-id'' = None
   \<and> computeHealth hexObjectId 0 example_store ''not-an-id'' = (Threw, example_store)"
  by (simp add: computeHealth_def hexObjectId_def)

section \<open>Projects without a checkin in the current period\<close>

lemma has_checkin_iff:
  "has_checkin week db p \<longleftrightarrow>
     (\<exists>c \<in> set (checkins db). c_week c = week \<and> c_projectId c = p_id p)"
  by (simp add: has_checkin_def list_ex_iff)

lemma list_ex_filter: "list_ex P (filter Q xs) \<longleftrightarrow> list_ex (\<lambda>x. Q x \<and> P x) xs"
  by (induction xs) simp_all

lemma missingCheckinsThisPeriod_filter:
  "missingCheckinsThisPeriod week db =
     (Responded 200 (Projects (filter (\<lambda>p. \<not> has_checkin week db p) (projects db))), db)"
  by (simp add: missingCheckinsThisPeriod_def has_checkin_def list_ex_filter Let_def)

lemma length_filter_split: "length (filter P xs) + length (filter (\<lambda>x. \<not> P x) xs) = length xs"
  by (induction xs) simp_all

text \<open>
  C9. The admin listing of missing checkins answers with exactly the projects, in the
  order of the collection, for which no checkin of the current period names the project,
  whichever employee submitted it, and it writes nothing. In a store of 3 projects of
  which exactly 1 has such a checkin, the answer holds the 2 others.
\<close>

theorem missing_checkins_exact:
  "missingCheckinsThisPeriod week db =
     (Responded 200
        (Projects (filter (\<lambda>p. \<not> (\<exists>c \<in> set (checkins db). c_week c = week \<and> c_projectId c = p_id p))
                          (projects db))), db)
   \<and> (length (projects db) = 3 \<and> length (filter (has_checkin week db) (projects db)) = 1
        \<longrightarrow> (\<exists>ms. fst (missingCheckinsThisPeriod week db) = Responded 200 (Projects ms)
                  \<and> length ms = 2
                  \<and> set ms = {p \<in> set (projects db). \<not> has_checkin week db p}))"
proof (intro conjI impI)
  show "missingCheckinsThisPeriod week db =
     (Responded 200
        (Projects (filter (\<lambda>p. \<not> (\<exists>c \<in> set (checkins db). c_week c = week \<and> c_projectId c = p_id p))
                          (projects db))), db)"
    by (simp add: missingCheckinsThisPeriod_filter has_checkin_iff)
next
  assume a: "length (projects db) = 3 \<and> length (filter (has_checkin week db) (projects db)) = 1"
  let ?ms = "filter (\<lambda>p. \<not> has_checkin week db p) (projects db)"
  have "length ?ms = 2"
    using a length_filter_split [of "has_checkin week db" "projects db"] by simp
  moreover have "fst (missingCheckinsThisPeriod week db) = Responded 200 (Projects ?ms)"
    by (simp add: missingCheckinsThisPeriod_filter)
  moreover have "set ?ms = {p \<in> set (projects db). \<not> has_checkin week db p}"
    by simp
  ultimately show "\<exists>ms. fst (missingCheckinsThisPeriod week db) = Responded 200 (Projects ms)
                  \<and> length ms = 2
                  \<and> set ms = {p \<in> set (projects db). \<not> has_checkin week db p}"
    by blast
qed

theorem missing_checkins_exact_witness:
  "length (projects example_store) = 3
   \<and> length (filter (has_checkin ''2026-W45'' example_store) (projects example_store)) = 1
   \<and> (\<exists>ms. fst (missingCheckinsThisPeriod ''2026-W45'' example_store) = Responded 200 (Projects ms)
            \<and> length ms = 2
            \<and> set ms = {p \<in> set (projects example_store). \<not> has_checkin ''2026-W45'' example_store p})
   \<and> missingCheckinsThisPeriod ''2026-W45'' example_store
       = (Responded 200 (Projects [project2, project3]), example_store)"
proof -
  have h1: "length (projects example_store) = 3"
    by (simp add: example_defs)
  have h2: "length (filter (has_checkin ''2026-W45'' example_store) (projects example_store)) = 1"
    by (simp add: example_defs has_checkin_def)
  have v: "missingCheckinsThisPeriod ''2026-W45'' example_store
       = (Responded 200 (Projects [project2, project3]), example_store)"
    by (simp add: missingCheckinsThisPeriod_filter has_checkin_def example_defs)
  have "\<exists>ms. fst (missingCheckinsThisPeriod ''2026-W45'' example_store) = Responded 200 (Projects ms)
            \<and> length ms = 2
            \<and> set ms = {p \<in> set (projects example_store). \<not> has_checkin ''2026-W45'' example_store p}"
    using conjunct2 [OF missing_checkins_exact [of "''2026-W45''" example_store]] conjI [OF h1 h2]
    by (rule mp)
  with h1 h2 v show ?thesis by (intro conjI)
qed

section \<open>What a health computation writes\<close>

lemma set_health_frame:
  "p_id (set_health h s now p) = p_id p
   \<and> (\<forall>k. k \<notin> health_fields \<longrightarrow>
          map_of (p_fields (set_health h s now p)) k = map_of (p_fields p) k)"
  by (simp add: set_health_def health_fields_def update_conv')

lemma updateOne_frame:
  assumes "\<And>p. R p p" and "\<And>p. p_id p = oid \<Longrightarrow> R p (f p)"
  shows "list_all2 R ps (updateOne oid f ps)"
proof (induction ps)
  case Nil
  show ?case by simp
next
  case (Cons p ps)
  have "list_all2 R ps ps" using assms(1) by (simp add: list_all2_same)
  with Cons assms show ?case by simp
qed

text \<open>
  C10. The health route leaves the checkin, feedback and risk collections as it found
  them. In the project collection every document keeps its place and its identifier, a
  project other than the requested one is unchanged, and the requested one differs at
  most in the properties \<open>healthScore\<close>, \<open>status\<close> and \<open>updatedAt\<close>. The admin listing
  that calls \<open>calculateHealth\<close> leaves the whole store as it found it.
\<close>

theorem health_computation_frame:
  "checkins (snd (computeHealth ObjectId now db pid)) = checkins db
   \<and> feedbacks (snd (computeHealth ObjectId now db pid)) = feedbacks db
   \<and> risks (snd (computeHealth ObjectId now db pid)) = risks db
   \<and> list_all2
        (\<lambda>p p'. p_id p' = p_id p
           \<and> (ObjectId pid \<noteq> Some (p_id p) \<longrightarrow> p' = p)
           \<and> (\<forall>k. k \<notin> health_fields \<longrightarrow> map_of (p_fields p') k = map_of (p_fields p) k))
        (projects db) (projects (snd (computeHealth ObjectId now db pid)))
   \<and> snd (computeDashboard db) = db"
proof -
  let ?R = "\<lambda>(p::project) (p'::project). p_id p' = p_id p
           \<and> (ObjectId pid \<noteq> Some (p_id p) \<longrightarrow> p' = p)
           \<and> (\<forall>k. k \<notin> health_fields \<longrightarrow> map_of (p_fields p') k = map_of (p_fields p) k)"
  have upd: "list_all2 ?R (projects db) (updateOne oid (set_health h s now) (projects db))"
    if "ObjectId pid = Some oid" for oid h s
  proof (rule updateOne_frame)
    fix p :: project
    show "?R p p" by simp
  next
    fix p :: project
    assume "p_id p = oid"
    with that show "?R p (set_health h s now p)"
      using set_health_frame [of h s now p] by simp
  qed
  have "checkins (snd (computeHealth ObjectId now db pid)) = checkins db"
    and "feedbacks (snd (computeHealth ObjectId now db pid)) = feedbacks db"
    and "risks (snd (computeHealth ObjectId now db pid)) = risks db"
    by (simp_all add: computeHealth_def Let_def split: option.splits)
  moreover have "list_all2 ?R (projects db) (projects (snd (computeHealth ObjectId now db pid)))"
    using upd by (simp add: computeHealth_def Let_def list_all2_same split: option.splits)
  moreover have "snd (computeDashboard db) = db"
    by (simp add: computeDashboard_def)
  ultimately show ?thesis by (intro conjI)
qed


lemma example_projects: "projects example_store = [project1, project2, project3]"
  by (simp add: example_store_def)

lemma example_a1_projects:
  "projects (snd (computeHealth Some 7 example_store ''a1'')) =
     [project1\<lparr>p_fields := [(''name'', VStr ''Alpha''), (''status'', VStr ''On Track''),
                            (''healthScore'', VNum (Num 80)), (''updatedAt'', VDate 7)]\<rparr>,
      project2, project3]"
  by code_simp

theorem health_computation_frame_witness:
  "checkins (snd (computeHealth Some 7 example_store ''a1'')) = checkins example_store
   \<and> projects (snd (computeHealth Some 7 example_store ''a1'')) =
       [project1\<lparr>p_fields := [(''name'', VStr ''Alpha''), (''status'', VStr ''On Track''),
                              (''healthScore'', VNum (Num 80)), (''updatedAt'', VDate 7)]\<rparr>,
        project2, project3]
   \<and> ''name'' \<notin> health_fields
   \<and> map_of (p_fields (hd (projects (snd (computeHealth Some 7 example_store ''a1''))))) ''name''
       = map_of (p_fields project1) ''name''"
proof -
  note frame = health_computation_frame [of Some 7 example_store "''a1''"]
  have c: "checkins (snd (computeHealth Some 7 example_store ''a1'')) = checkins example_store"
    using frame by (elim conjE)
  have n: "''name'' \<notin> health_fields"
    by (simp add: health_fields_def)
  have "list_all2
        (\<lambda>p p'. p_id p' = p_id p
           \<and> (Some ''a1'' \<noteq> Some (p_id p) \<longrightarrow> p' = p)
           \<and> (\<forall>k. k \<notin> health_fields \<longrightarrow> map_of (p_fields p') k = map_of (p_fields p) k))
        (projects example_store) (projects (snd (computeHealth Some 7 example_store ''a1'')))"
    using frame by (elim conjE)
  then have "\<forall>k. k \<notin> health_fields \<longrightarrow>
      map_of (p_fields (hd (projects (snd (computeHealth Some 7 example_store ''a1''))))) k
        = map_of (p_fields project1) k"
    unfolding example_a1_projects example_projects list.sel list_all2_Cons by (elim conjE)
  then have "map_of (p_fields (hd (projects (snd (computeHealth Some 7 example_store ''a1''))))) ''name''
       = map_of (p_fields project1) ''name''"
    using n by blast
  with c example_a1_projects n show ?thesis by (intro conjI)
qed


section \<open>The satisfaction aggregate of Policy B\<close>

lemma not_numeric_to_number: "\<not> numeric v \<Longrightarrow> to_number v = NaN"
  by (cases v rule: numeric.cases) simp_all

lemma foldl_or_not_numeric:
  "list_all (\<lambda>f. \<not> numeric (satisfaction f)) fs \<Longrightarrow>
   foldl (\<lambda>a b. js_or (js_add a (to_number (satisfaction b))) (Num 5)) (Num a0) fs
     = (if fs = [] then Num a0 else Num 5)"
proof (induction fs arbitrary: a0)
  case Nil
  show ?case by simp
next
  case (Cons f fs)
  then have "to_number (satisfaction f) = NaN" by (simp add: not_numeric_to_number)
  then have "js_or (js_add (Num a0) (to_number (satisfaction f))) (Num 5) = Num 5"
    by (simp add: js_or_def)
  with Cons show ?case by simp
qed

lemma avgSatisfaction_not_numeric:
  assumes "fs \<noteq> []" and "list_all (\<lambda>f. \<not> numeric (satisfaction f)) fs"
  shows "avgSatisfaction fs = Num (5 / of_nat (length fs))"
  using assms by (simp add: avgSatisfaction_def foldl_or_not_numeric js_length_def)

text \<open>
  C5. For a non-empty list of \<open>n\<close> feedback records none of which has a numeric
  \<open>satisfaction\<close> property (the records the feedback routes store carry
  \<open>satisfactionRating\<close> instead), whatever their other properties hold, the satisfaction
  aggregate of \<open>calculateHealth\<close> is \<open>5/n\<close>, not 5, so the factor the score is multiplied
  by is \<open>1/n\<close>; with no risks and no checkins the score is \<open>100/n\<close>, rounded.
\<close>

theorem satisfaction_aggregate_resets:
  assumes "fs \<noteq> []" and "list_all (\<lambda>f. \<not> numeric (satisfaction f)) fs"
  shows "avgSatisfaction fs = Num (5 / of_nat (length fs))
       \<and> js_div (avgSatisfaction fs) (Num 5) = Num (1 / of_nat (length fs))
       \<and> calculateHealth p [] [] fs = Num (of_int \<lfloor>(100::rat) / of_nat (length fs) + 1 / 2\<rfloor>)"
proof (intro conjI)
  have n: "1 \<le> (of_nat (length fs) :: rat)"
    using assms(1) by (cases fs) simp_all
  show a: "avgSatisfaction fs = Num (5 / of_nat (length fs))"
    using assms by (rule avgSatisfaction_not_numeric)
  show "js_div (avgSatisfaction fs) (Num 5) = Num (1 / of_nat (length fs))"
    by (simp add: a)
  have c: "avgConfidence [] = Num 5" by (simp add: avgConfidence_def)
  have le: "100 / (of_nat (length fs) :: rat) \<le> 100"
    using n by (simp add: divide_le_eq)
  have ge: "0 \<le> 100 / (of_nat (length fs) :: rat)" by simp
  have "(100 - of_nat (highRisks []) * 10) * (5 / 5) * (5 / of_nat (length fs) / 5)
      = 100 / (of_nat (length fs) :: rat)"
    by (simp add: highRisks_def)
  moreover have "max 0 (min 100 (100 / (of_nat (length fs) :: rat))) = 100 / of_nat (length fs)"
    using le ge by (simp add: max_def min_def)
  ultimately show "calculateHealth p [] [] fs
      = Num (of_int \<lfloor>(100::rat) / of_nat (length fs) + 1 / 2\<rfloor>)"
    using calculateHealth_Num [OF c a, of p "[]"] by (simp only:)
qed

text \<open>Four stored feedback records, each rated 5: the aggregate is 5/4 and the score 25.\<close>

theorem satisfaction_aggregate_resets_witness:
  "replicate 4 (mk_feedback ''a1'' 5 False) \<noteq> []
   \<and> list_all (\<lambda>f. \<not> numeric (satisfaction f)) (replicate 4 (mk_feedback ''a1'' 5 False))
   \<and> avgSatisfaction (replicate 4 (mk_feedback ''a1'' 5 False)) = Num (5 / 4)
   \<and> js_div (avgSatisfaction (replicate 4 (mk_feedback ''a1'' 5 False))) (Num 5) = Num (1 / 4)
   \<and> calculateHealth project1 [] [] (replicate 4 (mk_feedback ''a1'' 5 False)) = Num 25"
proof -
  let ?fs = "replicate 4 (mk_feedback ''a1'' 5 False)"
  have len: "length ?fs = 4" by simp
  have h1: "?fs \<noteq> []" by code_simp
  have h2: "list_all (\<lambda>f. \<not> numeric (satisfaction f)) ?fs" by code_simp
  from satisfaction_aggregate_resets [OF h1 h2, of project1]
  have "avgSatisfaction ?fs = Num (5 / 4)
       \<and> js_div (avgSatisfaction ?fs) (Num 5) = Num (1 / 4)
       \<and> calculateHealth project1 [] [] ?fs = Num 25"
    unfolding len by (simp add: floor_divide_numeral_rat)
  with h1 h2 show ?thesis by (intro conjI) (elim conjE, assumption)+
qed


section \<open>One more flagged feedback\<close>







section \<open>Binary64 numbers round to themselves\<close>

lemma rd_exact:
  assumes x: "x = of_int m * 2 powi t" and m: "\<bar>m\<bar> < 2 ^ 53" and t: "- 1074 \<le> t"
  shows "rd x = x"
proof (cases "x = 0")
  case True
  then show ?thesis by (simp add: rd_def)
next
  case False
  define e where "e = expo \<bar>x\<bar>"
  define q :: rat where "q = 2 powi (e - 52)"
  have q: "0 < q" by (simp add: q_def)
  have xpos: "0 < \<bar>x\<bar>" using False by simp
  have ax: "\<bar>x\<bar> = of_int \<bar>m\<bar> * 2 powi t"
    by (simp add: x abs_mult)
  have le: "e - 52 \<le> t"
  proof (rule ccontr)
    assume "\<not> e - 52 \<le> t"
    then have lt: "t + 53 \<le> e" by simp
    have "(of_int \<bar>m\<bar> :: rat) < of_int (2 ^ 53)" using m by (simp only: of_int_less_iff)
    then have "of_int \<bar>m\<bar> * 2 powi t < (2 ^ 53 :: rat) * 2 powi t"
      by (intro mult_strict_right_mono) simp_all
    also have "(2 ^ 53 :: rat) * 2 powi t = 2 powi (53 + t)"
      using power_int_add [of "2::rat" 53 t] by simp
    also have "\<dots> \<le> 2 powi e"
      using lt by (intro power_int_increasing) simp_all
    finally have small: "\<bar>x\<bar> < 2 powi e" by (simp only: ax)
    have "- 1022 < e" using lt t by linarith
    then have "2 powi e \<le> \<bar>x\<bar>" unfolding e_def using xpos expo_lower by blast
    with small show False by simp
  qed
  define d where "d = nat (t - (e - 52))"
  have td: "t = int d + (e - 52)" using le by (simp add: d_def)
  have "(2::rat) powi t = 2 powi (int d) * 2 powi (e - 52)"
    unfolding td by (rule power_int_add) simp
  then have xeq: "x = of_int (m * 2 ^ d) * q" by (simp add: x q_def)
  then have xq: "x / q = of_int (m * 2 ^ d)" using q by simp
  have "rd x = of_int (rhe (x / q)) * q"
    using False by (simp add: rd_def Let_def q_def e_def)
  also have "\<dots> = of_int (m * 2 ^ d) * q" by (simp only: xq rhe_of_int)
  also have "\<dots> = x" by (simp only: xeq [symmetric])
  finally show ?thesis .
qed

lemma fl_exact:
  assumes "x = of_int m * 2 powi t" and "\<bar>m\<bar> < 2 ^ 53" and "- 1074 \<le> t"
    and "- (2 ^ 1024) < x" and "x < 2 ^ 1024"
  shows "fl x = Fin x"
  using assms(4,5) by (simp add: fl_def rd_exact [OF assms(1-3)] Let_def)

lemma fl_zero: "fl 0 = Fin 0"
  by (simp add: fl_def rd_def)

lemma fl_of_int:
  assumes "\<bar>k\<bar> < 2 ^ 53"
  shows "fl (of_int k) = Fin (of_int k)"
proof (rule fl_exact [where m = k and t = 0])
  show "(of_int k :: rat) = of_int k * 2 powi 0" by simp
  show "\<bar>k\<bar> < 2 ^ 53" by fact
  show "(- 1074 :: int) \<le> 0" by simp
  have "(of_int \<bar>k\<bar> :: rat) < of_int (2 ^ 53)" using assms by (simp only: of_int_less_iff)
  also have "\<dots> < 2 ^ 1024" by simp
  finally have "\<bar>of_int k :: rat\<bar> < 2 ^ 1024" by simp
  then show "- (2 ^ 1024) < (of_int k :: rat)" and "(of_int k :: rat) < 2 ^ 1024"
    by (simp_all add: abs_less_iff)
qed

lemma fl_of_nat:
  assumes "n < 2 ^ 53"
  shows "fl (of_nat n) = Fin (of_nat n)"
proof -
  have "int n < int (2 ^ 53)" using assms by (simp only: of_nat_less_iff)
  then have "\<bar>int n\<bar> < 2 ^ 53" by simp
  then show ?thesis using fl_of_int [of "int n"] by simp
qed

lemma fl_numeral:
  assumes "numeral k < (2 ^ 53 :: int)"
  shows "fl (numeral k) = Fin (numeral k)" and "fl (- numeral k) = Fin (- numeral k)"
  using assms fl_of_int [of "numeral k"] fl_of_int [of "- numeral k"] by simp_all

lemma fl_one: "fl 1 = Fin 1"
  using fl_of_int [of 1] by simp

lemma fl_half_multiple:
  assumes "\<bar>m\<bar> < 2 ^ 53"
  shows "fl (of_int m / 2) = Fin (of_int m / 2)"
proof (rule fl_exact [where m = m and t = "- 1"])
  show "(of_int m / 2 :: rat) = of_int m * 2 powi (- 1)" by (simp add: power_int_minus_divide)
  show "\<bar>m\<bar> < 2 ^ 53" by fact
  show "(- 1074 :: int) \<le> - 1" by simp
  have b: "\<bar>of_int m :: rat\<bar> < 2 ^ 53"
    using assms of_int_less_iff [where ?'a = rat, of "\<bar>m\<bar>" "2 ^ 53"] by simp
  have "(2 ^ 53 :: rat) < 2 ^ 1024" by simp
  with b have "\<bar>of_int m :: rat\<bar> < 2 ^ 1024" by linarith
  then show "- (2 ^ 1024) < (of_int m / 2 :: rat)" and "(of_int m / 2 :: rat) < 2 ^ 1024"
    by (simp_all add: abs_less_iff)
qed

lemma fl_big: "fl (2 ^ 1023) = Fin (2 ^ 1023)" and fl_big_neg: "fl (- (2 ^ 1023)) = Fin (- (2 ^ 1023))"
proof -
  have p: "(2::rat) powi 1023 = 2 ^ 1023" by simp
  have lt: "(2 ^ 1023 :: rat) < 2 ^ 1024" by simp
  show "fl (2 ^ 1023) = Fin (2 ^ 1023)"
    by (rule fl_exact [where m = 1 and t = 1023]) (use lt in \<open>simp_all only: p of_int_1 mult_1\<close>, simp_all)
  show "fl (- (2 ^ 1023)) = Fin (- (2 ^ 1023))"
    by (rule fl_exact [where m = "- 1" and t = 1023]) (use lt in \<open>simp_all\<close>)
qed

lemma fl_overflow:
  assumes "2 ^ 1024 \<le> x"
  shows "fl x = PInf"
proof -
  have "rd (2 ^ 1024) = (2 ^ 1024 :: rat)"
    by (rule rd_exact [where m = 1 and t = 1024]) simp_all
  moreover have "rd (2 ^ 1024) \<le> rd x" using assms by (rule rd_mono)
  ultimately show ?thesis by (simp add: fl_def Let_def)
qed

lemma fl_overflow_neg:
  assumes "x \<le> - (2 ^ 1024)"
  shows "fl x = NInf"
proof -
  have "rd (- (2 ^ 1024)) = - (2 ^ 1024 :: rat)"
    by (rule rd_exact [where m = "- 1" and t = 1024]) simp_all
  moreover have "rd x \<le> rd (- (2 ^ 1024))" using assms by (rule rd_mono)
  moreover have "- (2 ^ 1024) < (2 ^ 1024 :: rat)" by simp
  ultimately show ?thesis by (simp add: fl_def Let_def)
qed

lemma fl_between:
  assumes "a \<le> x" and "x \<le> b" and "rd a = a" and "rd b = b"
    and "- (2 ^ 1024) < a" and "b < 2 ^ 1024"
  shows "\<exists>c. fl x = Fin c \<and> a \<le> c \<and> c \<le> b"
proof -
  have "rd a \<le> rd x" using assms(1) by (rule rd_mono)
  moreover have "rd x \<le> rd b" using assms(2) by (rule rd_mono)
  ultimately have "a \<le> rd x" "rd x \<le> b" using assms(3,4) by simp_all
  then show ?thesis using assms(5,6) by (simp add: fl_def Let_def)
qed

lemma fl_halves: "fl (1 / 2) = Fin (1 / 2)" "fl (5 / 2) = Fin (5 / 2)"
  using fl_half_multiple [of 1] fl_half_multiple [of 5] by simp_all

text \<open>The literals \<open>0.4\<close> and \<open>0.2\<close> are positive binary64 numbers.\<close>

lemma fl_literals:
  "\<exists>c. fl (2 / 5) = Fin c \<and> 0 < c" and "\<exists>c. fl (1 / 5) = Fin c \<and> 0 < c"
proof -
  have e1: "rd (1 / 8) = 1 / 8"
  proof (rule rd_exact [where m = 1 and t = "- 3"])
    show "(1 / 8 :: rat) = of_int 1 * 2 powi (- 3)" by (simp add: power_int_minus_divide)
  qed simp_all
  have e2: "rd (1 / 2) = 1 / 2"
  proof (rule rd_exact [where m = 1 and t = "- 1"])
    show "(1 / 2 :: rat) = of_int 1 * 2 powi (- 1)" by (simp add: power_int_minus_divide)
  qed simp_all
  note e = e1 e2
  have "\<exists>c. fl (2 / 5) = Fin c \<and> 1 / 8 \<le> c \<and> c \<le> 1 / 2"
    by (rule fl_between [OF _ _ e]) simp_all
  then show "\<exists>c. fl (2 / 5) = Fin c \<and> 0 < c" by fastforce
  have "\<exists>c. fl (1 / 5) = Fin c \<and> 1 / 8 \<le> c \<and> c \<le> 1 / 2"
    by (rule fl_between [OF _ _ e]) simp_all
  then show "\<exists>c. fl (1 / 5) = Fin c \<and> 0 < c" by fastforce
qed

lemma fl_not_NaN [simp]: "fl x \<noteq> DNaN"
  by (simp add: fl_def Let_def)


section \<open>Clamping and rounding a binary64 score\<close>

lemma clamp_round_mono: "a \<le> b \<Longrightarrow> clamp_round a \<le> clamp_round b"
  unfolding clamp_round_def by (intro floor_mono) (simp add: max_def min_def)

lemma clamp_round_eval:
  "Math_round64 (let s4 = (if d_gt x (Fin 100) then Fin 100 else x)
                 in if d_lt s4 (Fin 0) then Fin 0 else s4)
   = (case x of DNaN \<Rightarrow> DNaN | PInf \<Rightarrow> Fin (of_int (clamp_round 100))
      | NInf \<Rightarrow> Fin (of_int (clamp_round 0)) | Fin a \<Rightarrow> Fin (of_int (clamp_round a)))"
  by (cases x) (simp_all add: d_gt_def clamp_round_def max_def min_def)


lemma clamp_round_range: "0 \<le> clamp_round a \<and> clamp_round a \<le> 100"
proof -
  have "0 \<le> max 0 (min 100 a)" and "max 0 (min 100 a) \<le> 100" by simp_all
  then show ?thesis unfolding clamp_round_def by (simp add: le_floor_iff floor_le_iff)
qed

section \<open>A score that is not a number\<close>

lemma fl_huge: "fl huge = Fin huge" and fl_neg_huge: "fl (- huge) = Fin (- huge)"
  unfolding huge_def by (rule fl_big, rule fl_big_neg)

lemma fl_huge_overflow:
  "fl (huge + huge) = PInf" "fl (2 * huge) = PInf" "fl (huge * 20) = PInf"
  "fl (- (huge * 20)) = NInf"
proof -
  have a: "2 ^ 1024 \<le> huge + huge" and b: "2 ^ 1024 \<le> huge * 20" by (simp_all add: huge_def)
  show "fl (huge + huge) = PInf" using a by (rule fl_overflow)
  then show "fl (2 * huge) = PInf" by simp
  show "fl (huge * 20) = PInf" using b by (rule fl_overflow)
  have "- (huge * 20) \<le> - (2 ^ 1024)" using b by simp
  then show "fl (- (huge * 20)) = NInf" by (rule fl_overflow_neg)
qed

lemmas double_simps =
  fl_zero fl_one fl_numeral fl_halves fl_huge fl_neg_huge fl_huge_overflow d_length_def d_sub_def
  d_gt_def d_or_def floor_divide_numeral_rat floor_half_rat

lemma overflow_confidence:
  "avgConfidence64 [mk_checkin ''a1'' ''2026-W45'' huge 0, mk_checkin ''a1'' ''2026-W45'' huge 0]
   = PInf"
  by (simp add: avgConfidence64_def mk_checkin_def double_simps)

lemma ten_high_risks: "highRisks (replicate 10 (mk_risk ''a1'' ''High'' ''Open'')) = 10"
  by (simp add: highRisks_def mk_risk_def)

lemma policyB_overflow:
  "calculateHealth64 project1 (replicate 10 (mk_risk ''a1'' ''High'' ''Open''))
     [mk_checkin ''a1'' ''2026-W45'' huge 0, mk_checkin ''a1'' ''2026-W45'' huge 0] []
   = DNaN"
  by (simp add: calculateHealth64_def overflow_confidence ten_high_risks avgSatisfaction64_def
      double_simps)

lemma policyA_overflow:
  "healthScore64 [mk_feedback ''a1'' huge False] [mk_checkin ''a1'' ''2026-W45'' (- huge) 0]
   = DNaN"
proof -
  obtain c where c: "fl (2 / 5) = Fin c" "0 < c" using fl_literals(1) by blast
  have a: "d_mul (d_mul (avgClient64 [mk_feedback ''a1'' huge False]) (Fin 20)) (fl (2 / 5)) = PInf"
    using c(2) by (simp add: avgClient64_def mk_feedback_def double_simps c(1))
  have b: "d_mul (d_mul (avgConf64 [mk_checkin ''a1'' ''2026-W45'' (- huge) 0]) (Fin 20)) (fl (2 / 5))
      = NInf"
    using c(2) by (simp add: avgConf64_def mk_checkin_def double_simps c(1))
  show ?thesis
    by (simp add: healthScore64_def rawScore64_def clampScore64_def a b d_sub_def d_gt_def)
qed

text \<open>\<open>NaN\<close> is the only way out of the range: whatever the records hold, each score is
  \<open>NaN\<close> or an integer between 0 and 100.\<close>

lemma calculateHealth64_range:
  "calculateHealth64 p rs cs fs = DNaN
   \<or> (\<exists>k. calculateHealth64 p rs cs fs = Fin (of_int k) \<and> 0 \<le> k \<and> k \<le> 100)"
  unfolding calculateHealth64_def Let_def clamp_round_eval [unfolded Let_def]
  using clamp_round_range by (auto split: double.splits)

lemma clampScore64_int:
  "clampScore64 (Fin (of_int z)) = Fin (of_int (max 0 (min 100 z)))"
  by (simp add: clampScore64_def d_gt_def Let_def max_def min_def)

lemma healthScore64_range:
  "healthScore64 fs cs = DNaN
   \<or> (\<exists>k. healthScore64 fs cs = Fin (of_int k) \<and> 0 \<le> k \<and> k \<le> 100)"
proof -
  define e where "e = d_sub
          (d_add
             (d_add (d_mul (d_mul (avgClient64 fs) (Fin 20)) (fl (2 / 5)))
                    (d_mul (d_mul (avgConf64 cs) (Fin 20)) (fl (2 / 5))))
             (d_mul (avgCompletion64 cs) (fl (1 / 5))))
          (d_mul (fl (of_nat (flaggedCount fs))) (Fin 5))"
  have hs: "healthScore64 fs cs = clampScore64 (Math_round64 e)"
    by (simp add: healthScore64_def rawScore64_def e_def)
  show ?thesis
  proof (cases e)
    case (Fin a)
    have "clampScore64 (Fin (of_int \<lfloor>a + 1 / 2\<rfloor>)) = Fin (of_int (max 0 (min 100 \<lfloor>a + 1 / 2\<rfloor>)))"
      by (rule clampScore64_int)
    moreover have "0 \<le> max 0 (min 100 \<lfloor>a + 1 / 2\<rfloor>)" "max 0 (min 100 \<lfloor>a + 1 / 2\<rfloor>) \<le> 100"
      by simp_all
    ultimately show ?thesis unfolding hs Fin by (simp only: Math_round64.simps) blast
  next
    case PInf
    have "clampScore64 PInf = Fin (of_int 100)" by (simp add: clampScore64_def d_gt_def)
    then show ?thesis unfolding hs PInf by (simp only: Math_round64.simps) (intro disjI2 exI [of _ 100], simp)
  next
    case NInf
    have "clampScore64 NInf = Fin (of_int 0)" by (simp add: clampScore64_def d_gt_def)
    then show ?thesis unfolding hs NInf by (simp only: Math_round64.simps) (intro disjI2 exI [of _ 0], simp)
  next
    case DNaN
    then show ?thesis by (simp add: hs clampScore64_def d_gt_def)
  qed
qed

text \<open>
  C1. The scores are meant to be integers between 0 and 100, and the code clamps them,
  but the two comparisons of the clamp let \<open>NaN\<close> through, and numeric ratings are enough
  to produce it. Policy B: two checkins with confidence \<open>2^1023\<close> and ten open high
  risks; the confidence sum overflows to infinity, the score before it is 0, and zero
  times infinity is \<open>NaN\<close>. Policy A: a satisfaction rating of \<open>2^1023\<close> and a confidence
  of \<open>-2^1023\<close>; their terms overflow to opposite infinities, whose sum is \<open>NaN\<close>.
\<close>

theorem score_not_a_number:
  "calculateHealth64 project1 (replicate 10 (mk_risk ''a1'' ''High'' ''Open''))
     [mk_checkin ''a1'' ''2026-W45'' huge 0, mk_checkin ''a1'' ''2026-W45'' huge 0] []
   = DNaN
   \<and> healthScore64 [mk_feedback ''a1'' huge False] [mk_checkin ''a1'' ''2026-W45'' (- huge) 0]
     = DNaN"
  using policyB_overflow policyA_overflow by (rule conjI)

section \<open>Policy B on the feedback the server stores\<close>

text \<open>
  C4. Policy B is to multiply by the mean feedback satisfaction over 5. On the two
  feedback entries of the scenario, rated 4 and 5 and stored by \<open>POST /api/feedbacks\<close>,
  with no risks and no checkins, the formula gives 100 * (5/5) * (4.5/5) = 90. The code
  reads the property \<open>satisfaction\<close>, which no route stores, where Policy A reads
  \<open>satisfactionRating\<close>, and its \<open>a + b.satisfaction || 5\<close> turns every sum into 5: the
  aggregate is 5/2 and the score 50.
\<close>

theorem stored_feedback_halves_score:
  "calculateHealth64 project1 [] [] example_feedbacks = Fin 50
   \<and> avgSatisfaction64 example_feedbacks = Fin (5 / 2)
   \<and> map (\<lambda>f. the_num (satisfactionRating f)) example_feedbacks = [4, 5]
   \<and> spec_policyB (highRisks []) [] (map (\<lambda>f. the_num (satisfactionRating f)) example_feedbacks)
       = 90"
proof (intro conjI)
  show a: "avgSatisfaction64 example_feedbacks = Fin (5 / 2)"
    by (simp add: avgSatisfaction64_def example_feedbacks_def mk_feedback_def double_simps)
  show "calculateHealth64 project1 [] [] example_feedbacks = Fin 50"
    by (simp add: calculateHealth64_def a avgConfidence64_def highRisks_def double_simps)
  show m: "map (\<lambda>f. the_num (satisfactionRating f)) example_feedbacks = [4, 5]"
    by (simp add: example_feedbacks_def mk_feedback_def)
  show "spec_policyB (highRisks []) [] (map (\<lambda>f. the_num (satisfactionRating f)) example_feedbacks)
       = 90"
    unfolding m by (simp add: spec_policyB_def highRisks_def mean_def floor_divide_numeral_rat)
qed

section \<open>One more open high risk, in binary64\<close>

lemma fl_mono:
  assumes "x \<le> y"
  shows "d_le (fl x) (fl y)"
proof -
  have "rd x \<le> rd y" using assms by (rule rd_mono)
  moreover have "- (2 ^ 1024) < (2 ^ 1024 :: rat)" by simp
  ultimately show ?thesis by (auto simp: fl_def Let_def)
qed

lemma d_le_ends [simp]: "d_le x PInf \<longleftrightarrow> x \<noteq> DNaN" "d_le NInf x \<longleftrightarrow> x \<noteq> DNaN"
  by (cases x; simp)+

lemma nn_simps [simp]: "nn DNaN" "nn PInf" "\<not> nn NInf" "nn (Fin a) \<longleftrightarrow> 0 \<le> a"
  by (simp_all add: nn_def)

lemma fl_nn: "0 \<le> x \<Longrightarrow> nn (fl x)"
  using fl_mono [of 0 x] by (simp add: nn_def fl_zero)

lemma to_double_nn: "not_negative v \<Longrightarrow> nn (to_double v)"
  by (cases v rule: to_double.cases) (simp_all add: fl_nn)

lemma d_add_nn: "nn x \<Longrightarrow> nn y \<Longrightarrow> nn (d_add x y)"
  by (cases x; cases y) (simp_all add: fl_nn)

lemma d_div_nn: "nn x \<Longrightarrow> nn y \<Longrightarrow> nn (d_div x y)"
  by (cases x; cases y) (simp_all add: fl_nn)

lemma d_or_nn: "nn x \<Longrightarrow> nn y \<Longrightarrow> nn (d_or x y)"
  by (simp add: d_or_def)

lemma nn_Fin: "0 \<le> a \<Longrightarrow> nn (Fin a)"
  by simp

lemma d_length_nn: "nn (d_length xs)"
  by (simp add: d_length_def fl_nn)

lemma foldl_confidence_nn:
  assumes "list_all (\<lambda>c. not_negative (confidenceLevel c)) cs" and "nn a"
  shows "nn (foldl (\<lambda>a b. d_add a (to_double (confidenceLevel b))) a cs)"
  using assms
proof (induction cs arbitrary: a)
  case Nil
  then show ?case by simp
next
  case (Cons c cs)
  then have "nn (d_add a (to_double (confidenceLevel c)))"
    by (simp add: d_add_nn to_double_nn)
  with Cons show ?case by simp
qed

lemma foldl_satisfaction_nn:
  assumes "list_all (\<lambda>f. not_negative (satisfaction f)) fs" and "nn a"
  shows "nn (foldl (\<lambda>a b. d_or (d_add a (to_double (satisfaction b))) (Fin 5)) a fs)"
  using assms
proof (induction fs arbitrary: a)
  case Nil
  then show ?case by simp
next
  case (Cons f fs)
  then have "nn (d_or (d_add a (to_double (satisfaction f))) (Fin 5))"
    by (simp add: d_or_nn d_add_nn to_double_nn nn_Fin)
  with Cons show ?case by simp
qed

lemma avgConfidence64_nn:
  "list_all (\<lambda>c. not_negative (confidenceLevel c)) cs \<Longrightarrow> nn (d_div (avgConfidence64 cs) (Fin 5))"
  by (simp add: avgConfidence64_def d_div_nn foldl_confidence_nn d_length_nn nn_Fin)

lemma avgSatisfaction64_nn:
  "list_all (\<lambda>f. not_negative (satisfaction f)) fs \<Longrightarrow> nn (d_div (avgSatisfaction64 fs) (Fin 5))"
  by (simp add: avgSatisfaction64_def d_div_nn foldl_satisfaction_nn d_length_nn nn_Fin)

lemma fl_mul_mono: "a \<le> a' \<Longrightarrow> 0 \<le> b \<Longrightarrow> d_le (fl (a * b)) (fl (a' * b))"
  by (intro fl_mono mult_right_mono)

lemma d_mul_never_above:
  assumes "never_above x y" and "nn m"
  shows "never_above (d_mul x m) (d_mul y m)"
  using assms by (cases m; cases x; cases y) (auto simp: never_above_def fl_mul_mono)

lemma d_sub_never_above:
  assumes "never_above x y"
  shows "never_above (d_sub (Fin c) y) (d_sub (Fin c) x)"
proof (cases x; cases y)
  fix a a' assume xy: "x = Fin a" "y = Fin a'"
  with assms have "a \<le> a'" by (simp add: never_above_def)
  then have "c + - a' \<le> c + - a" by simp
  then have "d_le (fl (c + - a')) (fl (c + - a))" by (rule fl_mono)
  then show ?thesis by (simp add: xy d_sub_def never_above_def)
qed (use assms in \<open>auto simp: never_above_def d_sub_def\<close>)

lemma clamp_round_never_above:
  assumes "never_above x y"
  shows "never_above
    (Math_round64 (let s4 = (if d_gt x (Fin 100) then Fin 100 else x)
                   in if d_lt s4 (Fin 0) then Fin 0 else s4))
    (Math_round64 (let s4 = (if d_gt y (Fin 100) then Fin 100 else y)
                   in if d_lt s4 (Fin 0) then Fin 0 else s4))"
proof -
  have top: "clamp_round a \<le> clamp_round 100" and bot: "clamp_round 0 \<le> clamp_round a" for a
    by (simp_all add: clamp_round_def max_def min_def floor_mono)
  show ?thesis
    unfolding clamp_round_eval
    using assms clamp_round_mono top bot
    by (cases x; cases y) (simp_all add: never_above_def)
qed

lemma never_above_not_gt: "never_above x y \<Longrightarrow> \<not> d_gt x y"
  by (cases x; cases y) (auto simp: never_above_def d_gt_def)

text \<open>
  C6. With the project, the checkins and the feedback fixed, and no confidence level and
  no satisfaction value a negative number, inserting one more risk of severity High and
  status Open anywhere among the risks never gives a score greater than before: the new
  score is at most the old one, unless one of the two is \<open>NaN\<close> (an overflow), which
  compares greater than nothing.
\<close>

theorem one_more_high_risk_never_increases:
  assumes "list_all (\<lambda>c. not_negative (confidenceLevel c)) cs"
    and "list_all (\<lambda>f. not_negative (satisfaction f)) fs"
    and "r_severity r = ''High''" and "r_status r = ''Open''"
  shows "\<not> d_gt (calculateHealth64 p (rs1 @ r # rs2) cs fs) (calculateHealth64 p (rs1 @ rs2) cs fs)
       \<and> never_above (calculateHealth64 p (rs1 @ r # rs2) cs fs) (calculateHealth64 p (rs1 @ rs2) cs fs)"
proof -
  let ?h = "highRisks (rs1 @ rs2)"
  have h: "highRisks (rs1 @ r # rs2) = Suc ?h"
    using assms(3,4) by (simp add: highRisks_def)
  have "(of_nat ?h :: rat) \<le> of_nat (Suc ?h)" by simp
  then have "d_le (fl (of_nat ?h)) (fl (of_nat (Suc ?h)))" by (rule fl_mono)
  then have "never_above (fl (of_nat ?h)) (fl (of_nat (Suc ?h)))" by (simp add: never_above_def)
  then have "never_above (d_mul (fl (of_nat ?h)) (Fin 10)) (d_mul (fl (of_nat (Suc ?h))) (Fin 10))"
    by (rule d_mul_never_above) (simp add: nn_Fin)
  then have "never_above (d_sub (Fin 100) (d_mul (fl (of_nat (Suc ?h))) (Fin 10)))
                         (d_sub (Fin 100) (d_mul (fl (of_nat ?h)) (Fin 10)))"
    by (rule d_sub_never_above)
  then have "never_above
      (d_mul (d_sub (Fin 100) (d_mul (fl (of_nat (Suc ?h))) (Fin 10))) (d_div (avgConfidence64 cs) (Fin 5)))
      (d_mul (d_sub (Fin 100) (d_mul (fl (of_nat ?h)) (Fin 10))) (d_div (avgConfidence64 cs) (Fin 5)))"
    using avgConfidence64_nn [OF assms(1)] by (rule d_mul_never_above)
  then have "never_above
      (d_mul (d_mul (d_sub (Fin 100) (d_mul (fl (of_nat (Suc ?h))) (Fin 10)))
                    (d_div (avgConfidence64 cs) (Fin 5))) (d_div (avgSatisfaction64 fs) (Fin 5)))
      (d_mul (d_mul (d_sub (Fin 100) (d_mul (fl (of_nat ?h)) (Fin 10)))
                    (d_div (avgConfidence64 cs) (Fin 5))) (d_div (avgSatisfaction64 fs) (Fin 5)))"
    using avgSatisfaction64_nn [OF assms(2)] by (rule d_mul_never_above)
  then have na: "never_above (calculateHealth64 p (rs1 @ r # rs2) cs fs)
                             (calculateHealth64 p (rs1 @ rs2) cs fs)"
    unfolding calculateHealth64_def h Let_def
    by (rule clamp_round_never_above [unfolded Let_def])
  then show ?thesis using never_above_not_gt by blast
qed

text \<open>One checkin with confidence 5 and the two stored feedback entries: 50 without a
  risk, 45 with one open high risk.\<close>

lemma example_one_risk:
  "calculateHealth64 project1 [mk_risk ''a1'' ''High'' ''Open''] [mk_checkin ''a1'' ''2026-W45'' 5 50]
     example_feedbacks = Fin 45"
  "calculateHealth64 project1 [] [mk_checkin ''a1'' ''2026-W45'' 5 50] example_feedbacks = Fin 50"
  by (simp_all add: calculateHealth64_def avgConfidence64_def avgSatisfaction64_def highRisks_def
      example_feedbacks_def mk_risk_def mk_checkin_def mk_feedback_def double_simps)

theorem one_more_high_risk_never_increases_witness:
  "list_all (\<lambda>c. not_negative (confidenceLevel c)) [mk_checkin ''a1'' ''2026-W45'' 5 50]
   \<and> list_all (\<lambda>f. not_negative (satisfaction f)) example_feedbacks
   \<and> \<not> d_gt (calculateHealth64 project1 ([] @ mk_risk ''a1'' ''High'' ''Open'' # [])
               [mk_checkin ''a1'' ''2026-W45'' 5 50] example_feedbacks)
             (calculateHealth64 project1 ([] @ []) [mk_checkin ''a1'' ''2026-W45'' 5 50]
               example_feedbacks)
   \<and> calculateHealth64 project1 [mk_risk ''a1'' ''High'' ''Open''] [mk_checkin ''a1'' ''2026-W45'' 5 50]
        example_feedbacks = Fin 45
   \<and> calculateHealth64 project1 [] [mk_checkin ''a1'' ''2026-W45'' 5 50] example_feedbacks = Fin 50"
proof -
  have h1: "list_all (\<lambda>c. not_negative (confidenceLevel c)) [mk_checkin ''a1'' ''2026-W45'' 5 50]"
    by (simp add: mk_checkin_def)
  have h2: "list_all (\<lambda>f. not_negative (satisfaction f)) example_feedbacks"
    by (simp add: example_feedbacks_def mk_feedback_def)
  have h3: "r_severity (mk_risk ''a1'' ''High'' ''Open'') = ''High''"
    and h4: "r_status (mk_risk ''a1'' ''High'' ''Open'') = ''Open''"
    by (simp_all add: mk_risk_def)
  note t = conjunct1 [OF one_more_high_risk_never_increases [OF h1 h2 h3 h4, of project1 "[]" "[]"]]
  from h1 h2 t example_one_risk show ?thesis by (intro conjI)
qed

text \<open>With two confidence levels of \<open>2^1023\<close> the mean confidence is infinite: 9, 10 and
  11 open high risks then score 100, \<open>NaN\<close> and 0.\<close>

lemma overflow_nine_eleven:
  "calculateHealth64 project1 (replicate 9 (mk_risk ''a1'' ''High'' ''Open''))
     [mk_checkin ''a1'' ''2026-W45'' huge 0, mk_checkin ''a1'' ''2026-W45'' huge 0] [] = Fin 100"
  "calculateHealth64 project1 (replicate 11 (mk_risk ''a1'' ''High'' ''Open''))
     [mk_checkin ''a1'' ''2026-W45'' huge 0, mk_checkin ''a1'' ''2026-W45'' huge 0] [] = Fin 0"
  by (simp_all add: calculateHealth64_def overflow_confidence highRisks_def mk_risk_def
      avgSatisfaction64_def double_simps)

end
